theory Spec2Isabelle
  imports Main
begin

section \<open>Python values and strings\<close>

text \<open>
  The handler \<open>MyClient.on_message\<close> of \<open>main.py\<close> works on Python \<open>str\<close> values and on
  the values \<open>json.load\<close> returns. A \<open>str\<close> is modelled as a \<open>string\<close>, one \<open>char\<close> per
  character (code points below 256). A JSON value is \<open>null\<close>, a bool, an int, a \<open>str\<close>, a
  list or a dict with \<open>str\<close> keys; a dict is an association list in insertion order.
  Floating-point numbers are not modelled.
\<close>

datatype json =
    JNull
  | JBool bool
  | JInt int
  | JStr string
  | JArr "json list"
  | JObj "(string \<times> json) list"

datatype exn =
    FileNotFoundError
  | OSError
  | UnicodeDecodeError
  | JSONDecodeError
  | RecursionError
  | ZoneInfoNotFoundError
  | ValueError
  | TypeError
  | OverflowError

text \<open>
  \<open>json.JSONDecodeError\<close> and \<open>UnicodeDecodeError\<close> are subclasses of \<open>ValueError\<close>:
  \<open>except ValueError\<close> catches all three, \<open>except json.JSONDecodeError\<close> only the first.
  \<open>OSError\<close> stands for the failures of \<open>open\<close> other than \<open>FileNotFoundError\<close>.
\<close>

definition isinstance_ValueError :: "exn \<Rightarrow> bool" where
  "isinstance_ValueError e = (e = ValueError \<or> e = JSONDecodeError \<or> e = UnicodeDecodeError)"

definition newline :: char where
  "newline = CHR 0x0A"

definition startswith :: "string \<Rightarrow> string \<Rightarrow> bool" where
  "startswith s prefix = (take (length prefix) s = prefix)"

text \<open>\<open>str.isspace\<close> on one character, for the code points below 256.\<close>

definition isspace :: "char \<Rightarrow> bool" where
  "isspace c =
     (let n = (of_char c :: nat)
      in (9 \<le> n \<and> n \<le> 13) \<or> (28 \<le> n \<and> n \<le> 32) \<or> n = 133 \<or> n = 160)"

definition strip :: "string \<Rightarrow> string" where
  "strip s = rev (dropWhile isspace (rev (dropWhile isspace s)))"

text \<open>\<open>sep.join(parts)\<close>.\<close>

fun join :: "string \<Rightarrow> string list \<Rightarrow> string" where
  "join sep [] = []"
| "join sep [x] = x"
| "join sep (x # y # ys) = x @ sep @ join sep (y # ys)"

text \<open>\<open>str(n)\<close> for an int: decimal digits, with a minus sign when negative.\<close>

definition digit_char :: "nat \<Rightarrow> char" where
  "digit_char d = char_of (48 + d)"

function str_nat :: "nat \<Rightarrow> string" where
  "str_nat n = (if n < 10 then [digit_char n] else str_nat (n div 10) @ [digit_char (n mod 10)])"
  by pat_completeness auto
termination
  by (relation "measure (\<lambda>n. n)") auto

declare str_nat.simps [simp del]

definition str_int :: "int \<Rightarrow> string" where
  "str_int i = (if i < 0 then CHR ''-'' # str_nat (nat (- i)) else str_nat (nat i))"

text \<open>Truth value of a JSON value in a Python condition (\<open>if ts:\<close>, \<open>x or y\<close>).\<close>

fun truthy :: "json \<Rightarrow> bool" where
  "truthy JNull = False"
| "truthy (JBool b) = b"
| "truthy (JInt n) = (n \<noteq> 0)"
| "truthy (JStr s) = (s \<noteq> [])"
| "truthy (JArr xs) = (xs \<noteq> [])"
| "truthy (JObj kvs) = (kvs \<noteq> [])"

text \<open>Lists and dicts are unhashable: using one as a dict key raises \<open>TypeError\<close>.\<close>

fun hashable :: "json \<Rightarrow> bool" where
  "hashable (JArr xs) = False"
| "hashable (JObj kvs) = False"
| "hashable v = True"

text \<open>Equality of dict keys: \<open>True == 1\<close> and \<open>False == 0\<close>, otherwise equal values.\<close>

fun num_val :: "json \<Rightarrow> int option" where
  "num_val (JBool b) = Some (if b then 1 else 0)"
| "num_val (JInt n) = Some n"
| "num_val v = None"

definition py_eq :: "json \<Rightarrow> json \<Rightarrow> bool" where
  "py_eq a b =
     (case (num_val a, num_val b) of
        (Some x, Some y) \<Rightarrow> x = y
      | (None, None) \<Rightarrow> a = b
      | _ \<Rightarrow> False)"

text \<open>
  \<open>str(v)\<close> as an f-string prints a dict key. Lists and dicts are never keys; the
  model gives them the empty text.
\<close>

fun py_str :: "json \<Rightarrow> string" where
  "py_str JNull = ''None''"
| "py_str (JBool b) = (if b then ''True'' else ''False'')"
| "py_str (JInt n) = str_int n"
| "py_str (JStr s) = s"
| "py_str (JArr xs) = []"
| "py_str (JObj kvs) = []"

subsection \<open>\<open>json.dumps(v, ensure_ascii=False)\<close>\<close>

definition hex_digit :: "nat \<Rightarrow> char" where
  "hex_digit d = (if d < 10 then char_of (48 + d) else char_of (87 + d))"

text \<open>
  One character of a string literal: backslash, double quote and the control characters
  below 0x20 are escaped, everything else is written as it is.
\<close>

definition escape_char :: "char \<Rightarrow> string" where
  "escape_char c =
     (let n = (of_char c :: nat)
      in if n = 0x5C then [CHR 0x5C, CHR 0x5C]
         else if n = 0x22 then [CHR 0x5C, CHR 0x22]
         else if n = 0x08 then [CHR 0x5C, CHR ''b'']
         else if n = 0x0C then [CHR 0x5C, CHR ''f'']
         else if n = 0x0A then [CHR 0x5C, CHR ''n'']
         else if n = 0x0D then [CHR 0x5C, CHR ''r'']
         else if n = 0x09 then [CHR 0x5C, CHR ''t'']
         else if n < 0x20 then [CHR 0x5C, CHR ''u'', CHR ''0'', CHR ''0'',
                                 hex_digit (n div 16), hex_digit (n mod 16)]
         else [c])"

definition encode_basestring :: "string \<Rightarrow> string" where
  "encode_basestring s = [CHR 0x22] @ concat (map escape_char s) @ [CHR 0x22]"

fun json_dumps :: "json \<Rightarrow> string" where
  "json_dumps JNull = ''null''"
| "json_dumps (JBool b) = (if b then ''true'' else ''false'')"
| "json_dumps (JInt n) = str_int n"
| "json_dumps (JStr s) = encode_basestring s"
| "json_dumps (JArr xs) = ''['' @ join '', '' (map json_dumps xs) @ '']''"
| "json_dumps (JObj kvs) =
     ''{'' @ join '', '' (map (\<lambda>kv. encode_basestring (fst kv) @ '': '' @ json_dumps (snd kv)) kvs)
     @ ''}''"

text \<open>\<open>key in d\<close> and \<open>d.get(key)\<close> on a dict.\<close>

definition has_key :: "(string \<times> json) list \<Rightarrow> string \<Rightarrow> bool" where
  "has_key kvs k = (map_of kvs k \<noteq> None)"

definition dict_get :: "(string \<times> json) list \<Rightarrow> string \<Rightarrow> json" where
  "dict_get kvs k = (case map_of kvs k of None \<Rightarrow> JNull | Some v \<Rightarrow> v)"

section \<open>The environment of the handler\<close>

text \<open>
  The storage file \<open>data.json\<close>, by what \<open>open(data_file, 'r', encoding='utf-8')\<close> followed
  by \<open>json.load\<close> does on it (lines 58 to 59 and 88 to 89):
  \<^item> \<open>Absent\<close>: there is no file, \<open>open\<close> raises \<open>FileNotFoundError\<close>;
  \<^item> \<open>Unreadable\<close>: \<open>open\<close> fails otherwise (a directory, no permission);
  \<^item> \<open>NotUTF8\<close>: the bytes are not valid UTF-8, reading raises \<open>UnicodeDecodeError\<close>;
  \<^item> \<open>Unparseable\<close>: text that is not JSON, \<open>json.load\<close> raises \<open>JSONDecodeError\<close>;
  \<^item> \<open>OverlongInt\<close>: JSON text with an integer literal of more digits than the interpreter
    converts (4300 by default), \<open>json.load\<close> raises \<open>ValueError\<close>;
  \<^item> \<open>TooDeep\<close>: JSON text nested beyond the recursion limit, \<open>json.load\<close> raises
    \<open>RecursionError\<close>;
  \<^item> \<open>Parsed\<close>: text that \<open>json.load\<close> parses to the value.

  \<open>json.dump\<close> writes text that parses back to the value dumped, so a written file is
  \<open>Parsed\<close> of that value; a write is taken to succeed.
\<close>

datatype file_state =
    Absent
  | Unreadable
  | NotUTF8
  | Unparseable string
  | OverlongInt string
  | TooDeep string
  | Parsed json

datatype fs_op = OpenRead | OpenWrite

text \<open>
  The world the handler acts on: the storage file, the log of the \<open>open\<close> calls made on it
  and the messages sent to the channel, oldest first.
\<close>

record world =
  data_file :: file_state
  fs_ops :: "fs_op list"
  sent :: "string list"

text \<open>
  The library calls whose results depend on the time-zone database and on the host:
  \<open>ZoneInfo(key)\<close>, and the conversion of lines 120 to 129 (\<open>fromisoformat\<close>, \<open>astimezone\<close>,
  \<open>strftime\<close>) of a \<open>str\<close> timestamp for a requested zone. Each returns its value or the
  exception it raises. A resolved zone is identified by its key.
\<close>

type_synonym tzinfo = string

record env =
  ZoneInfo :: "string \<Rightarrow> exn + tzinfo"
  localize :: "tzinfo option \<Rightarrow> string \<Rightarrow> exn + string"

text \<open>
  The inbound message: its text, \<open>str(message.author)\<close>, and the string lines 45 to 48
  compute from \<open>message.created_at\<close>.
\<close>

record message =
  content :: string
  author :: string
  timestamp :: string

definition send :: "string \<Rightarrow> world \<Rightarrow> world" where
  "send text w = w\<lparr>sent := sent w @ [text]\<rparr>"

definition open_file :: "fs_op \<Rightarrow> world \<Rightarrow> world" where
  "open_file op w = w\<lparr>fs_ops := fs_ops w @ [op]\<rparr>"

definition json_load :: "file_state \<Rightarrow> exn + json" where
  "json_load f =
     (case f of
        Absent \<Rightarrow> Inl FileNotFoundError
      | Unreadable \<Rightarrow> Inl OSError
      | NotUTF8 \<Rightarrow> Inl UnicodeDecodeError
      | Unparseable raw \<Rightarrow> Inl JSONDecodeError
      | OverlongInt raw \<Rightarrow> Inl ValueError
      | TooDeep raw \<Rightarrow> Inl RecursionError
      | Parsed v \<Rightarrow> Inr v)"

section \<open>The \<open>!save\<close> command (lines 37 to 74)\<close>

datatype flow = Continue | Return | Raise exn

definition usage_hint :: string where
  "usage_hint = ''Please provide text to save. Usage: `!save your text here`''"

definition saved_reply :: string where
  "saved_reply = ''Saved to `data.json`.''"

definition saved_entry :: "message \<Rightarrow> string \<Rightarrow> json" where
  "saved_entry m content_str =
     JObj [(''author'', JStr (author m)),
           (''timestamp'', JStr (timestamp m)),
           (''payload'', JStr content_str)]"

text \<open>Lines 57 to 68: the list the new entry is appended to.\<close>

definition existing_data :: "file_state \<Rightarrow> exn + json list" where
  "existing_data f =
     (case json_load f of
        Inr existing \<Rightarrow> (case existing of JArr xs \<Rightarrow> Inr xs | _ \<Rightarrow> Inr [existing])
      | Inl e \<Rightarrow>
          if e = FileNotFoundError then Inr []
          else if e = JSONDecodeError then Inr []
          else Inl e)"

definition save_command :: "message \<Rightarrow> world \<Rightarrow> world \<times> flow" where
  "save_command m w =
     (let content_str = strip (drop (length ''!save '') (content m))
      in if content_str = [] then (send usage_hint w, Return)
         else
           let w1 = open_file OpenRead w
           in case existing_data (data_file w1) of
                Inl e \<Rightarrow> (w1, Raise e)
              | Inr data \<Rightarrow>
                  let w2 = (open_file OpenWrite w1)
                             \<lparr>data_file := Parsed (JArr (data @ [saved_entry m content_str]))\<rparr>
                  in (send saved_reply w2, Continue))"

section \<open>The \<open>!load\<close> command (lines 76 to 161)\<close>

subsection \<open>Grouping by author (lines 96 to 107)\<close>

type_synonym grouped = "(json \<times> json list) list"

text \<open>\<open>grouped.setdefault(key, []).append(entry)\<close>, for a hashable key.\<close>

fun setdefault_append :: "grouped \<Rightarrow> json \<Rightarrow> json \<Rightarrow> grouped" where
  "setdefault_append [] key entry = [(key, [entry])]"
| "setdefault_append ((k, es) # g) key entry =
     (if py_eq k key then (k, es @ [entry]) # g
      else (k, es) # setdefault_append g key entry)"

definition legacy_entry :: "json \<Rightarrow> json" where
  "legacy_entry entry =
     JObj [(''author'', JStr ''unknown''), (''timestamp'', JNull), (''payload'', entry)]"

definition is_author_dict :: "json \<Rightarrow> bool" where
  "is_author_dict entry = (case entry of JObj kvs \<Rightarrow> has_key kvs ''author'' | _ \<Rightarrow> False)"

definition group_entry :: "grouped \<Rightarrow> json \<Rightarrow> exn + grouped" where
  "group_entry g entry =
     (case entry of
        JObj kvs \<Rightarrow>
          if has_key kvs ''author'' then
            let a = dict_get kvs ''author'';
                key = (if truthy a then a else JStr ''unknown'')
            in if hashable key then Inr (setdefault_append g key entry) else Inl TypeError
          else Inr (setdefault_append g (JStr ''unknown'') (legacy_entry entry))
      | _ \<Rightarrow> Inr (setdefault_append g (JStr ''unknown'') (legacy_entry entry)))"

fun group_loop :: "grouped \<Rightarrow> json list \<Rightarrow> exn + grouped" where
  "group_loop g [] = Inr g"
| "group_loop g (entry # rest) =
     (case group_entry g entry of
        Inl e \<Rightarrow> Inl e
      | Inr g' \<Rightarrow> group_loop g' rest)"

subsection \<open>Rendering (lines 110 to 138)\<close>

text \<open>Lines 114 to 131: the text shown for a timestamp, \<open>None\<close> when it is falsy.\<close>

definition human_ts :: "env \<Rightarrow> tzinfo option \<Rightarrow> json \<Rightarrow> exn + string option" where
  "human_ts E tz_obj ts =
     (if truthy ts then
        (case ts of
           JStr s \<Rightarrow>
             (case localize E tz_obj s of
                Inr h \<Rightarrow> Inr (Some h)
              | Inl e \<Rightarrow> if isinstance_ValueError e then Inr (Some s) else Inl e)
         | _ \<Rightarrow> Inl TypeError)
      else Inr None)"

definition entry_payload :: "json \<Rightarrow> json" where
  "entry_payload ent =
     (case ent of
        JObj kvs \<Rightarrow> if has_key kvs ''payload'' then dict_get kvs ''payload'' else ent
      | _ \<Rightarrow> ent)"

definition entry_timestamp :: "json \<Rightarrow> json" where
  "entry_timestamp ent = (case ent of JObj kvs \<Rightarrow> dict_get kvs ''timestamp'' | _ \<Rightarrow> JNull)"

definition payload_line :: "nat \<Rightarrow> json \<Rightarrow> string" where
  "payload_line idx payload = ''  '' @ str_nat idx @ '') '' @ json_dumps payload"

definition timestamp_line :: "string option \<Rightarrow> string" where
  "timestamp_line h = ''       Timestamp: '' @ (case h of None \<Rightarrow> ''None'' | Some t \<Rightarrow> t)"

text \<open>The body of the inner loop: the two lines appended for one entry.\<close>

definition render_entry :: "env \<Rightarrow> tzinfo option \<Rightarrow> nat \<Rightarrow> json \<Rightarrow> exn + string list" where
  "render_entry E tz_obj idx ent =
     (case human_ts E tz_obj (entry_timestamp ent) of
        Inl e \<Rightarrow> Inl e
      | Inr h \<Rightarrow> Inr [payload_line idx (entry_payload ent), timestamp_line h])"

fun render_entries :: "env \<Rightarrow> tzinfo option \<Rightarrow> nat \<Rightarrow> json list \<Rightarrow> exn + string list" where
  "render_entries E tz_obj idx [] = Inr []"
| "render_entries E tz_obj idx (ent # rest) =
     (case render_entry E tz_obj idx ent of
        Inl e \<Rightarrow> Inl e
      | Inr ls \<Rightarrow>
          (case render_entries E tz_obj (idx + 1) rest of
             Inl e \<Rightarrow> Inl e
           | Inr others \<Rightarrow> Inr (ls @ others)))"

definition author_line :: "json \<Rightarrow> nat \<Rightarrow> string" where
  "author_line a n = ''Author: '' @ py_str a @ '' ('' @ str_nat n @ '' message(s))''"

fun render_groups :: "env \<Rightarrow> tzinfo option \<Rightarrow> grouped \<Rightarrow> exn + string list" where
  "render_groups E tz_obj [] = Inr []"
| "render_groups E tz_obj ((a, entries) # rest) =
     (case render_entries E tz_obj 1 entries of
        Inl e \<Rightarrow> Inl e
      | Inr ls \<Rightarrow>
          (case render_groups E tz_obj rest of
             Inl e \<Rightarrow> Inl e
           | Inr others \<Rightarrow> Inr (author_line a (length entries) # ls @ [''''] @ others)))"

subsection \<open>Pagination (lines 140 to 155)\<close>

definition max_chunk :: nat where
  "max_chunk = 1900"

definition fence :: string where
  "fence = ''```''"

definition chunk_content :: "string \<Rightarrow> string option \<Rightarrow> nat \<Rightarrow> string \<Rightarrow> string" where
  "chunk_content header lang i chunk =
     (if i = 0 then
        (case lang of
           Some l \<Rightarrow>
             if l \<noteq> [] then header @ [newline] @ fence @ l @ [newline] @ chunk @ [newline] @ fence
             else header @ [newline] @ chunk
         | None \<Rightarrow> header @ [newline] @ chunk)
      else
        (case lang of
           Some l \<Rightarrow>
             if l \<noteq> [] then fence @ l @ [newline] @ chunk @ [newline] @ fence
             else chunk
         | None \<Rightarrow> chunk))"

text \<open>The loop \<open>for i in range(0, len(text), max_chunk)\<close>, from index \<open>i\<close> on.\<close>

function send_loop :: "string \<Rightarrow> string \<Rightarrow> string option \<Rightarrow> nat \<Rightarrow> string list" where
  "send_loop header text lang i =
     (if i < length text then
        chunk_content header lang i (take max_chunk (drop i text))
          # send_loop header text lang (i + max_chunk)
      else [])"
  by pat_completeness auto
termination
  by (relation "measure (\<lambda>(header, text, lang, i). length text - i)") (auto simp: max_chunk_def)

declare send_loop.simps [simp del]

definition send_paginated :: "string \<Rightarrow> string \<Rightarrow> string option \<Rightarrow> string list" where
  "send_paginated header text lang = send_loop header text lang 0"

subsection \<open>The handler\<close>

definition unknown_timezone :: "string \<Rightarrow> string" where
  "unknown_timezone tz_arg =
     ''Unknown timezone: `'' @ tz_arg @ ''`. Use an IANA timezone name like `Europe/Berlin`.''"

definition no_data_reply :: string where
  "no_data_reply = ''No data found. `data.json` does not exist.''"

definition corrupted_reply :: string where
  "corrupted_reply = ''Error reading `data.json`. The file may be corrupted.''"

text \<open>Lines 88 to 93: the stored value, normalised to a list.\<close>

definition normalize :: "json \<Rightarrow> json list" where
  "normalize data = (case data of JArr xs \<Rightarrow> xs | _ \<Rightarrow> [data])"

text \<open>
  Lines 88 to 138: the stored value grouped and rendered as \<open>friendly_text\<close>, or the
  exception raised on the way.
\<close>

definition friendly_text :: "env \<Rightarrow> tzinfo option \<Rightarrow> file_state \<Rightarrow> exn + string" where
  "friendly_text E tz_obj f =
     (case json_load f of
        Inl e \<Rightarrow> Inl e
      | Inr data \<Rightarrow>
          (case group_loop [] (normalize data) of
             Inl e \<Rightarrow> Inl e
           | Inr g \<Rightarrow>
               (case render_groups E tz_obj g of
                  Inl e \<Rightarrow> Inl e
                | Inr parts \<Rightarrow> Inr (join [newline] parts))))"

text \<open>
  The body of the \<open>try\<close> of lines 87 to 157: the exception raised before anything is sent,
  or the messages \<open>_send_paginated\<close> sends.
\<close>

definition load_body :: "env \<Rightarrow> tzinfo option \<Rightarrow> file_state \<Rightarrow> exn + string list" where
  "load_body E tz_obj f =
     (case friendly_text E tz_obj f of
        Inl e \<Rightarrow> Inl e
      | Inr t \<Rightarrow> Inr (send_paginated ''Saved messages:'' t None))"

definition send_all :: "string list \<Rightarrow> world \<Rightarrow> world" where
  "send_all texts w = w\<lparr>sent := sent w @ texts\<rparr>"

text \<open>Lines 78 to 85: the requested zone, if any.\<close>

definition resolve_tz :: "env \<Rightarrow> string \<Rightarrow> exn + tzinfo option" where
  "resolve_tz E tz_arg =
     (if tz_arg \<noteq> [] then
        (case ZoneInfo E tz_arg of
           Inr z \<Rightarrow> Inr (Some z)
         | Inl e \<Rightarrow> Inl e)
      else Inr None)"

definition load_command :: "env \<Rightarrow> message \<Rightarrow> world \<Rightarrow> world \<times> flow" where
  "load_command E m w =
     (let tz_arg = strip (drop (length ''!load'') (content m))
      in case resolve_tz E tz_arg of
           Inl e \<Rightarrow>
             if e = ZoneInfoNotFoundError then (send (unknown_timezone tz_arg) w, Return)
             else (w, Raise e)
         | Inr tz_obj \<Rightarrow>
             (let w1 = open_file OpenRead w
              in case load_body E tz_obj (data_file w1) of
                   Inr texts \<Rightarrow> (send_all texts w1, Continue)
                 | Inl e \<Rightarrow>
                     if e = FileNotFoundError then (send no_data_reply w1, Continue)
                     else if e = JSONDecodeError then (send corrupted_reply w1, Continue)
                     else (w1, Raise e)))"

text \<open>
  \<open>on_message\<close>: the world after the handler, and the exception it raised, if any.
\<close>

definition on_message :: "env \<Rightarrow> message \<Rightarrow> world \<Rightarrow> world \<times> exn option" where
  "on_message E m w =
     (let (w1, f1) = (if startswith (content m) ''!save'' then save_command m w
                      else (w, Continue))
      in case f1 of
           Raise e \<Rightarrow> (w1, Some e)
         | Return \<Rightarrow> (w1, None)
         | Continue \<Rightarrow>
             (let (w2, f2) = (if startswith (content m) ''!load'' then load_command E m w1
                              else (w1, Continue))
              in case f2 of
                   Raise e \<Rightarrow> (w2, Some e)
                 | _ \<Rightarrow> (w2, None)))"

section \<open>Notions used in the statements\<close>

text \<open>The slice \<open>text[k * max_chunk : k * max_chunk + max_chunk]\<close>.\<close>

definition text_slice :: "string \<Rightarrow> nat \<Rightarrow> string" where
  "text_slice t k = take max_chunk (drop (k * max_chunk) t)"

text \<open>The text a \<open>!save\<close> message asks to save, and the messages that save something.\<close>

definition payload_of :: "message \<Rightarrow> string" where
  "payload_of m = strip (drop (length ''!save '') (content m))"

definition is_save :: "message \<Rightarrow> bool" where
  "is_save m = (startswith (content m) ''!save'' \<and> payload_of m \<noteq> [])"

definition stored :: "message \<Rightarrow> json" where
  "stored m = saved_entry m (payload_of m)"

text \<open>
  The states of the storage file from which a \<open>!save\<close> goes on (lines 57 to 68 return or
  catch), and the list it finds there.
\<close>

definition recovers :: "file_state \<Rightarrow> bool" where
  "recovers f =
     (case f of
        Absent \<Rightarrow> True
      | Unparseable raw \<Rightarrow> True
      | Parsed v \<Rightarrow> True
      | _ \<Rightarrow> False)"

definition stored_list :: "file_state \<Rightarrow> json list" where
  "stored_list f =
     (case f of
        Parsed v \<Rightarrow> (case v of JArr xs \<Rightarrow> xs | _ \<Rightarrow> [v])
      | _ \<Rightarrow> [])"

text \<open>
  The gateway delivers the messages one at a time; an exception raised for one message
  does not stop the next.
\<close>

definition handle_all :: "env \<Rightarrow> message list \<Rightarrow> world \<Rightarrow> world" where
  "handle_all E ms w = foldl (\<lambda>w' m. fst (on_message E m w')) w ms"

text \<open>The entries of all groups, and their number.\<close>

definition entries_of :: "grouped \<Rightarrow> json list" where
  "entries_of g = concat (map snd g)"

definition group_size :: "grouped \<Rightarrow> nat" where
  "group_size g = sum_list (map (\<lambda>kv. length (snd kv)) g)"

text \<open>
  A timestamp the renderer can show: a falsy value, or a string that the conversion
  accepts or rejects with \<open>ValueError\<close>.
\<close>

definition converts :: "env \<Rightarrow> tzinfo option \<Rightarrow> json \<Rightarrow> bool" where
  "converts E tz_obj ts = (case human_ts E tz_obj ts of Inr h \<Rightarrow> True | Inl e \<Rightarrow> False)"

section \<open>Sample inputs\<close>

text \<open>
  An environment with one zone and one timestamp that converts. As the library does, it
  rejects the key \<open>../x\<close>, which is not a normalised relative path below the zone
  directory, with \<open>ValueError\<close>, and any other key with \<open>ZoneInfoNotFoundError\<close>.
\<close>

definition sample_env :: env where
  "sample_env =
     \<lparr>ZoneInfo = (\<lambda>key. if key = ''Europe/Berlin'' then Inr key
                       else if key = ''../x'' then Inl ValueError
                       else Inl ZoneInfoNotFoundError),
      localize = (\<lambda>tz s. if s = ''2024-01-02T03:04:05+00:00'' then Inr ''2024-01-02 03:04:05 UTC''
                        else Inl ValueError)\<rparr>"

text \<open>Messages.\<close>

definition blank_save :: message where
  "blank_save = \<lparr>content = ''!save    '', author = ''alice'', timestamp = ''2024-01-02T03:04:05+00:00''\<rparr>"

definition hello_save :: message where
  "hello_save = \<lparr>content = ''!save hello'', author = ''alice'', timestamp = ''2024-01-02T03:04:05+00:00''\<rparr>"

definition bob_save :: message where
  "bob_save = \<lparr>content = ''!save  buy milk '', author = ''bob'', timestamp = ''garbage''\<rparr>"

definition plain_load :: message where
  "plain_load = \<lparr>content = ''!load'', author = ''alice'', timestamp = ''2024-01-02T03:04:05+00:00''\<rparr>"

definition bad_zone_load :: message where
  "bad_zone_load = \<lparr>content = ''!load badzone'', author = ''alice'', timestamp = ''2024-01-02T03:04:05+00:00''\<rparr>"

definition malformed_zone_load :: message where
  "malformed_zone_load = \<lparr>content = ''!load ../x'', author = ''alice'', timestamp = ''2024-01-02T03:04:05+00:00''\<rparr>"

text \<open>Stored entries and worlds.\<close>

definition garbage_ts_entry :: json where
  "garbage_ts_entry =
     JObj [(''author'', JStr ''alice''), (''timestamp'', JStr ''garbage''), (''payload'', JStr ''x'')]"

definition numeric_ts_entry :: json where
  "numeric_ts_entry =
     JObj [(''author'', JStr ''bob''), (''timestamp'', JInt 5), (''payload'', JStr ''x'')]"

definition empty_ts_entry :: json where
  "empty_ts_entry =
     JObj [(''author'', JStr ''alice''), (''timestamp'', JStr []), (''payload'', JStr ''x'')]"

definition fresh_world :: world where
  "fresh_world = \<lparr>data_file = Absent, fs_ops = [], sent = []\<rparr>"

definition corrupt_world :: world where
  "corrupt_world = \<lparr>data_file = Unparseable ''{broken'', fs_ops = [], sent = []\<rparr>"

definition not_utf8_world :: world where
  "not_utf8_world = \<lparr>data_file = NotUTF8, fs_ops = [], sent = []\<rparr>"

definition numeric_ts_world :: world where
  "numeric_ts_world = \<lparr>data_file = Parsed (JArr [numeric_ts_entry]), fs_ops = [], sent = []\<rparr>"

definition empty_store_world :: world where
  "empty_store_world = \<lparr>data_file = Parsed (JArr []), fs_ops = [], sent = []\<rparr>"

definition empty_ts_world :: world where
  "empty_ts_world = \<lparr>data_file = Parsed (JArr [empty_ts_entry]), fs_ops = [], sent = []\<rparr>"

definition legacy_world :: world where
  "legacy_world = \<lparr>data_file = Parsed (JArr [JStr ''hello'']), fs_ops = [], sent = []\<rparr>"

definition two_entry_world :: world where
  "two_entry_world = \<lparr>data_file = Parsed (JArr [stored bob_save, stored hello_save]), fs_ops = [], sent = []\<rparr>"

section \<open>Pagination\<close>


lemma ceil_div_step:
  fixes m d :: nat
  assumes "0 < m" and "0 < d"
  shows "(d + (m - 1)) div m = Suc ((d - m + (m - 1)) div m)"
proof -
  have ge: "m \<le> d + (m - 1)" using assms by simp
  have step: "(d + (m - 1)) div m = Suc ((d + (m - 1) - m) div m)"
    using le_div_geq [OF assms(1) ge] .
  show ?thesis
  proof (cases "m \<le> d")
    case True
    then have "d + (m - 1) - m = d - m + (m - 1)" using assms by simp
    then show ?thesis using step by (simp only:)
  next
    case False
    then have a: "(d - m + (m - 1)) div m = 0" using assms by simp
    from False have b: "(d + (m - 1) - m) div m = 0" using assms by simp
    show ?thesis using step a b by (simp only:)
  qed
qed

lemma chunk_count_step:
  fixes m :: nat
  assumes "0 < m" and "i < n"
  shows "Suc ((n - (i + m) + (m - 1)) div m) = (n - i + (m - 1)) div m"
proof -
  have "0 < n - i" using assms by simp
  from ceil_div_step [OF assms(1) this] show ?thesis
    by (simp only: diff_diff_left)
qed

lemma max_chunk_pos: "0 < max_chunk"
  by (simp add: max_chunk_def)

lemma send_loop_step:
  "i < length t \<Longrightarrow>
   send_loop h t l i =
     chunk_content h l i (take max_chunk (drop i t)) # send_loop h t l (i + max_chunk)"
  by (subst send_loop.simps) simp

lemma send_loop_done: "\<not> i < length t \<Longrightarrow> send_loop h t l i = []"
  by (subst send_loop.simps) simp

lemma send_loop_length:
  "length (send_loop h t l i) = (length t - i + (max_chunk - 1)) div max_chunk"
proof (induction h t l i rule: send_loop.induct)
  case (1 h t l i)
  show ?case
  proof (cases "i < length t")
    case True
    have "length (send_loop h t l i) = Suc (length (send_loop h t l (i + max_chunk)))"
      by (simp only: send_loop_step [OF True] list.size(4) Suc_eq_plus1)
    also have "\<dots> = Suc ((length t - (i + max_chunk) + (max_chunk - 1)) div max_chunk)"
      by (simp only: "1.IH" [OF True])
    also have "\<dots> = (length t - i + (max_chunk - 1)) div max_chunk"
      using chunk_count_step [OF max_chunk_pos True] .
    finally show ?thesis .
  next
    case False
    then have "length t - i = 0" by simp
    then show ?thesis using max_chunk_pos
      by (simp only: send_loop_done [OF False]) simp
  qed
qed

lemma send_loop_nth:
  "k < length (send_loop h t l i) \<Longrightarrow>
   send_loop h t l i ! k =
     chunk_content h l (i + k * max_chunk) (take max_chunk (drop (i + k * max_chunk) t))"
proof (induction h t l i arbitrary: k rule: send_loop.induct)
  case (1 h t l i)
  show ?case
  proof (cases "i < length t")
    case True
    note unfold = send_loop_step [OF True, of h l]
    show ?thesis
    proof (cases k)
      case 0
      then show ?thesis by (simp only: unfold) simp
    next
      case (Suc j)
      with "1.prems" have "j < length (send_loop h t l (i + max_chunk))"
        by (simp only: unfold) simp
      from "1.IH" [OF True this] show ?thesis
        using Suc by (simp only: unfold) (simp add: ac_simps)
    qed
  next
    case False
    with "1.prems" show ?thesis by (simp only: send_loop_done [OF False]) simp
  qed
qed

lemma send_loop_text_slices:
  "concat (map (\<lambda>k. take max_chunk (drop (i + k * max_chunk) t))
       [0..<length (send_loop h t l i)]) = drop i t"
proof (induction h t l i rule: send_loop.induct)
  case (1 h t l i)
  show ?case
  proof (cases "i < length t")
    case True
    let ?n = "length (send_loop h t l (i + max_chunk))"
    let ?f = "\<lambda>k. take max_chunk (drop (i + k * max_chunk) t)"
    have len: "length (send_loop h t l i) = Suc ?n"
      by (simp only: send_loop_step [OF True] list.size(4) Suc_eq_plus1)
    have shift: "map ?f [Suc 0..<Suc ?n]
        = map (\<lambda>k. take max_chunk (drop (i + max_chunk + k * max_chunk) t)) [0..<?n]"
      by (simp only: map_Suc_upt [symmetric] map_map o_def mult_Suc add.assoc)
    have "concat (map ?f [0..<Suc ?n]) = ?f 0 @ concat (map ?f [Suc 0..<Suc ?n])"
      by (simp only: upt_conv_Cons [of 0 "Suc ?n"] zero_less_Suc list.map concat.simps if_True)
    also have "\<dots> = take max_chunk (drop i t) @ drop (i + max_chunk) t"
      using "1.IH" [OF True] by (simp only: shift) simp
    also have "\<dots> = drop i t"
      by (simp only: add.commute [of i max_chunk] drop_drop [symmetric] append_take_drop_id)
    finally show ?thesis by (simp only: len)
  next
    case False
    then show ?thesis by (simp only: send_loop_done [OF False]) simp
  qed
qed

text \<open>
  Claim C4. For a text of length \<open>L > 0\<close> and a header \<open>H\<close>, pagination without a language
  emits \<open>\<lceil>L / 1900\<rceil>\<close> messages in order; message \<open>k\<close> carries the slice of at most 1900
  characters that starts at index \<open>1900 * k\<close>, only message 0 is prefixed with \<open>H\<close> and a
  newline, and the slices concatenated give the text back. A text of length 5000 gives
  exactly 3 messages.
\<close>

theorem C4_pagination:
  assumes "0 < length t"
  shows "length (send_paginated h t None) = (length t + (max_chunk - 1)) div max_chunk
    \<and> (\<forall>k < length (send_paginated h t None).
          send_paginated h t None ! k = (if k = 0 then h @ [newline] else []) @ text_slice t k
          \<and> length (text_slice t k) \<le> 1900)
    \<and> concat (map (text_slice t) [0..<length (send_paginated h t None)]) = t
    \<and> (length t = 5000 \<longrightarrow> length (send_paginated h t None) = 3)"
proof -
  let ?msgs = "send_paginated h t None"
  have len: "length ?msgs = (length t + (max_chunk - 1)) div max_chunk"
    using send_loop_length [of h t None 0] by (simp add: send_paginated_def)
  have nth: "?msgs ! k = (if k = 0 then h @ [newline] else []) @ text_slice t k
      \<and> length (text_slice t k) \<le> 1900" if "k < length ?msgs" for k
  proof -
    from that have "?msgs ! k = chunk_content h None (k * max_chunk) (text_slice t k)"
      using send_loop_nth [of k h t None 0] by (simp add: send_paginated_def text_slice_def)
    moreover have "k * max_chunk = 0 \<longleftrightarrow> k = 0" using max_chunk_pos by simp
    moreover have "length (text_slice t k) \<le> 1900" by (simp add: text_slice_def max_chunk_def)
    ultimately show ?thesis by (simp add: chunk_content_def)
  qed
  have cat: "concat (map (text_slice t) [0..<length ?msgs]) = t"
  proof -
    have "text_slice t = (\<lambda>k. take max_chunk (drop (0 + k * max_chunk) t))"
      by (rule ext) (simp add: text_slice_def)
    then show ?thesis
      using send_loop_text_slices [of 0 t h None] by (simp only: send_paginated_def drop_0)
  qed
  have five: "length ?msgs = 3" if "length t = 5000"
    using len that by (simp add: max_chunk_def)
  from len nth cat five show ?thesis by blast
qed

theorem C4_pagination_witness:
  "0 < length (replicate 5000 CHR ''x'')
   \<and> length (send_paginated ''Saved messages:'' (replicate 5000 CHR ''x'') None) = 3
   \<and> send_paginated ''Saved messages:'' (replicate 5000 CHR ''x'') None ! 0
       = ''Saved messages:'' @ [newline] @ replicate 1900 CHR ''x''
   \<and> send_paginated ''Saved messages:'' (replicate 5000 CHR ''x'') None ! 2
       = replicate 1200 CHR ''x''"
proof -
  have pos: "0 < length (replicate 5000 CHR ''x'')" by simp
  note main = C4_pagination [OF pos, of "''Saved messages:''"]
  from main have len: "length (send_paginated ''Saved messages:'' (replicate 5000 CHR ''x'') None) = 3"
    by simp
  from main len have
    "send_paginated ''Saved messages:'' (replicate 5000 CHR ''x'') None ! 0
       = ''Saved messages:'' @ [newline] @ text_slice (replicate 5000 CHR ''x'') 0"
    "send_paginated ''Saved messages:'' (replicate 5000 CHR ''x'') None ! 2
       = text_slice (replicate 5000 CHR ''x'') 2"
    by simp_all
  then show ?thesis using pos len by (simp add: text_slice_def max_chunk_def)
qed

lemma send_paginated_empty: "send_paginated h [] l = []"
  by (simp add: send_paginated_def send_loop_done)

section \<open>The \<open>!save\<close> command with nothing to save\<close>

lemma load_not_save: "startswith s ''!load'' \<Longrightarrow> \<not> startswith s ''!save''"
  by (auto simp: startswith_def)

lemma save_not_load: "startswith s ''!save'' \<Longrightarrow> \<not> startswith s ''!load''"
  by (auto simp: startswith_def)

lemma strip_all_space:
  assumes "\<forall>c \<in> set s. isspace c"
  shows "strip s = []"
proof -
  from assms have "dropWhile isspace s = []" by (simp add: dropWhile_eq_Nil_conv)
  then show ?thesis by (simp only: strip_def rev.simps dropWhile.simps)
qed

lemma strip_empty_iff: "strip s = [] \<longleftrightarrow> (\<forall>c \<in> set s. isspace c)"
proof
  assume e: "strip s = []"
  show "\<forall>c \<in> set s. isspace c"
  proof (rule ccontr)
    assume "\<not> (\<forall>c \<in> set s. isspace c)"
    then have ne: "dropWhile isspace s \<noteq> []" by (simp add: dropWhile_eq_Nil_conv)
    then have "\<not> isspace (hd (dropWhile isspace s))" by (rule hd_dropWhile)
    moreover have "hd (dropWhile isspace s) \<in> set (rev (dropWhile isspace s))"
      using ne by simp
    ultimately have "dropWhile isspace (rev (dropWhile isspace s)) \<noteq> []"
      by (auto simp: dropWhile_eq_Nil_conv)
    with e show False by (simp add: strip_def)
  qed
next
  assume "\<forall>c \<in> set s. isspace c"
  then show "strip s = []" by (rule strip_all_space)
qed

lemma on_message_save:
  "startswith (content m) ''!save'' \<Longrightarrow>
   on_message E m w = (case save_command m w of (w1, Raise e) \<Rightarrow> (w1, Some e) | (w1, _) \<Rightarrow> (w1, None))"
  by (auto simp: on_message_def save_not_load split: prod.splits flow.splits)

lemma on_message_load:
  "startswith (content m) ''!load'' \<Longrightarrow>
   on_message E m w = (case load_command E m w of (w1, Raise e) \<Rightarrow> (w1, Some e) | (w1, _) \<Rightarrow> (w1, None))"
  by (auto simp: on_message_def load_not_save split: prod.splits flow.splits)

text \<open>
  Claim C5. A \<open>!save\<close> message whose text after the six-character prefix is empty or only
  whitespace gets the usage hint as its only reply, and the handler makes no \<open>open\<close> call:
  the storage file is neither created nor modified.
\<close>

theorem C5_blank_save:
  assumes "startswith (content m) ''!save''"
    and "\<forall>c \<in> set (drop (length ''!save '') (content m)). isspace c"
  shows "on_message E m w = (w\<lparr>sent := sent w @ [usage_hint]\<rparr>, None)
    \<and> data_file (fst (on_message E m w)) = data_file w
    \<and> fs_ops (fst (on_message E m w)) = fs_ops w"
proof -
  from assms(2) have "strip (drop (length ''!save '') (content m)) = []"
    by (rule strip_all_space)
  then have "save_command m w = (send usage_hint w, Return)"
    by (simp add: save_command_def)
  with assms(1) show ?thesis
    by (simp add: on_message_save send_def)
qed



theorem C5_blank_save_witness:
  "startswith (content blank_save) ''!save''
   \<and> list_all isspace (drop (length ''!save '') (content blank_save))
   \<and> on_message sample_env blank_save fresh_world = (\<lparr>data_file = Absent, fs_ops = [], sent = [usage_hint]\<rparr>, None)"
proof -
  have a: "startswith (content blank_save) ''!save''"
    by (simp add: blank_save_def startswith_def)
  have b: "\<forall>c \<in> set (drop (length ''!save '') (content blank_save)). isspace c"
    by (simp add: blank_save_def isspace_def)
  from C5_blank_save [OF a b, of sample_env fresh_world] show ?thesis
    using a b by (simp add: fresh_world_def list_all_iff)
qed

section \<open>What \<open>!load\<close> does to the world\<close>

lemma data_file_open_file [simp]: "data_file (open_file op w) = data_file w"
  by (simp add: open_file_def)

lemma load_command_resolved:
  assumes "resolve_tz E (strip (drop (length ''!load'') (content m))) = Inr tz_obj"
  shows "load_command E m w =
     (case load_body E tz_obj (data_file w) of
        Inr texts \<Rightarrow> (send_all texts (open_file OpenRead w), Continue)
      | Inl e \<Rightarrow>
          if e = FileNotFoundError then (send no_data_reply (open_file OpenRead w), Continue)
          else if e = JSONDecodeError then (send corrupted_reply (open_file OpenRead w), Continue)
          else (open_file OpenRead w, Raise e))"
  using assms by (simp add: load_command_def Let_def)

lemma load_command_unresolved:
  assumes "resolve_tz E (strip (drop (length ''!load'') (content m))) = Inl e"
  shows "load_command E m w =
     (if e = ZoneInfoNotFoundError
      then (send (unknown_timezone (strip (drop (length ''!load'') (content m)))) w, Return)
      else (w, Raise e))"
  using assms by (simp add: load_command_def Let_def)

text \<open>What a \<open>!load\<close> does depends on the world only through the storage file.\<close>

lemma load_frame:
  assumes "startswith (content m) ''!load''"
  shows "\<exists>ops replies r. OpenWrite \<notin> set ops \<and>
     (\<forall>w. data_file w = f \<longrightarrow>
        on_message E m w = (w\<lparr>fs_ops := fs_ops w @ ops, sent := sent w @ replies\<rparr>, r))"
proof (cases "resolve_tz E (strip (drop (length ''!load'') (content m)))")
  case (Inl e)
  show ?thesis
  proof (cases "e = ZoneInfoNotFoundError")
    case True
    have "\<forall>w. data_file w = f \<longrightarrow> on_message E m w =
        (w\<lparr>fs_ops := fs_ops w @ [],
           sent := sent w @ [unknown_timezone (strip (drop (length ''!load'') (content m)))]\<rparr>, None)"
      using assms True by (simp add: on_message_load load_command_unresolved [OF Inl] send_def)
    then show ?thesis by (metis empty_iff empty_set)
  next
    case False
    have "\<forall>w. data_file w = f \<longrightarrow> on_message E m w =
        (w\<lparr>fs_ops := fs_ops w @ [], sent := sent w @ []\<rparr>, Some e)"
      using assms False by (simp add: on_message_load load_command_unresolved [OF Inl])
    then show ?thesis by (metis empty_iff empty_set)
  qed
next
  case (Inr tz_obj)
  note cmd = load_command_resolved [OF Inr]
  show ?thesis
  proof (cases "load_body E tz_obj f")
    case (Inr texts)
    have "\<forall>w. data_file w = f \<longrightarrow> on_message E m w =
        (w\<lparr>fs_ops := fs_ops w @ [OpenRead], sent := sent w @ texts\<rparr>, None)"
      using assms Inr by (simp add: on_message_load cmd send_all_def open_file_def)
    moreover have "OpenWrite \<notin> set [OpenRead]" by simp
    ultimately show ?thesis by blast
  next
    case (Inl e)
    consider "e = FileNotFoundError" | "e = JSONDecodeError"
      | "e \<noteq> FileNotFoundError" "e \<noteq> JSONDecodeError" by blast
    then show ?thesis
    proof cases
      case 1
      have "\<forall>w. data_file w = f \<longrightarrow> on_message E m w =
          (w\<lparr>fs_ops := fs_ops w @ [OpenRead], sent := sent w @ [no_data_reply]\<rparr>, None)"
        using assms Inl 1 by (simp add: on_message_load cmd send_def open_file_def)
      moreover have "OpenWrite \<notin> set [OpenRead]" by simp
      ultimately show ?thesis by blast
    next
      case 2
      have "\<forall>w. data_file w = f \<longrightarrow> on_message E m w =
          (w\<lparr>fs_ops := fs_ops w @ [OpenRead], sent := sent w @ [corrupted_reply]\<rparr>, None)"
        using assms Inl 2 by (simp add: on_message_load cmd send_def open_file_def)
      moreover have "OpenWrite \<notin> set [OpenRead]" by simp
      ultimately show ?thesis by blast
    next
      case 3
      have "\<forall>w. data_file w = f \<longrightarrow> on_message E m w =
          (w\<lparr>fs_ops := fs_ops w @ [OpenRead], sent := sent w @ []\<rparr>, Some e)"
        using assms Inl 3 by (simp add: on_message_load cmd open_file_def)
      moreover have "OpenWrite \<notin> set [OpenRead]" by simp
      ultimately show ?thesis by blast
    qed
  qed
qed

text \<open>
  Claim C9. A \<open>!load\<close> never writes the storage file: whatever the file holds, the handler
  makes no \<open>open\<close> call for writing and leaves the file as it was; run twice, it sends
  the same replies both times and ends the same way.
\<close>

theorem C9_load_writes_nothing:
  assumes "startswith (content m) ''!load''"
  shows "\<exists>ops replies.
       OpenWrite \<notin> set ops
     \<and> data_file (fst (on_message E m w)) = data_file w
     \<and> fs_ops (fst (on_message E m w)) = fs_ops w @ ops
     \<and> sent (fst (on_message E m w)) = sent w @ replies
     \<and> data_file (fst (on_message E m (fst (on_message E m w)))) = data_file w
     \<and> sent (fst (on_message E m (fst (on_message E m w)))) = sent w @ replies @ replies
     \<and> snd (on_message E m (fst (on_message E m w))) = snd (on_message E m w)"
proof -
  from load_frame [OF assms, of "data_file w" E]
  obtain ops replies r where nw: "OpenWrite \<notin> set ops"
    and eff: "\<And>w'. data_file w' = data_file w \<Longrightarrow>
        on_message E m w' = (w'\<lparr>fs_ops := fs_ops w' @ ops, sent := sent w' @ replies\<rparr>, r)"
    by blast
  let ?w1 = "w\<lparr>fs_ops := fs_ops w @ ops, sent := sent w @ replies\<rparr>"
  have one: "on_message E m w = (?w1, r)" using eff [of w] by simp
  have two: "on_message E m ?w1 = (?w1\<lparr>fs_ops := fs_ops ?w1 @ ops, sent := sent ?w1 @ replies\<rparr>, r)"
    using eff [of ?w1] by simp
  show ?thesis
    using nw by (intro exI [of _ ops] exI [of _ replies]) (simp add: one two)
qed

theorem C9_load_writes_nothing_witness:
  "startswith (content plain_load) ''!load''
   \<and> (\<exists>ops replies.
       OpenWrite \<notin> set ops
     \<and> data_file (fst (on_message sample_env plain_load corrupt_world)) = data_file corrupt_world
     \<and> fs_ops (fst (on_message sample_env plain_load corrupt_world)) = fs_ops corrupt_world @ ops
     \<and> sent (fst (on_message sample_env plain_load corrupt_world)) = sent corrupt_world @ replies
     \<and> data_file (fst (on_message sample_env plain_load
            (fst (on_message sample_env plain_load corrupt_world)))) = data_file corrupt_world
     \<and> sent (fst (on_message sample_env plain_load
            (fst (on_message sample_env plain_load corrupt_world)))) = sent corrupt_world @ replies @ replies
     \<and> snd (on_message sample_env plain_load
            (fst (on_message sample_env plain_load corrupt_world)))
         = snd (on_message sample_env plain_load corrupt_world))"
proof -
  have a: "startswith (content plain_load) ''!load''"
    by (simp add: plain_load_def startswith_def)
  from C9_load_writes_nothing [OF a, of sample_env corrupt_world] a show ?thesis by blast
qed

lemma plain_load_corrupt:
  "on_message sample_env plain_load corrupt_world
     = (\<lparr>data_file = Unparseable ''{broken'', fs_ops = [OpenRead], sent = [corrupted_reply]\<rparr>, None)"
proof -
  have a: "startswith (content plain_load) ''!load''"
    by (simp add: plain_load_def startswith_def)
  have b: "resolve_tz sample_env (strip (drop (length ''!load'') (content plain_load))) = Inr None"
    by (simp add: plain_load_def resolve_tz_def strip_def)
  show ?thesis
    by (simp add: on_message_load [OF a] load_command_resolved [OF b] corrupt_world_def
        load_body_def friendly_text_def json_load_def send_def open_file_def)
qed

section \<open>Recovery from an absent or unparseable file\<close>

lemma save_command_unreadable:
  assumes "strip (drop (length ''!save '') (content m)) \<noteq> []"
    and "data_file w = Absent \<or> (\<exists>raw. data_file w = Unparseable raw)"
  shows "save_command m w =
     (w\<lparr>data_file := Parsed (JArr [saved_entry m (strip (drop (length ''!save '') (content m)))]),
        fs_ops := fs_ops w @ [OpenRead, OpenWrite],
        sent := sent w @ [saved_reply]\<rparr>, Continue)"
proof -
  from assms(2) have "existing_data (data_file w) = Inr []"
    by (auto simp: existing_data_def json_load_def)
  with assms(1) show ?thesis
    by (simp add: save_command_def Let_def open_file_def send_def)
qed

text \<open>
  The two failures the handler catches. On a storage file that is absent or that
  \<open>json.load\<close> rejects with \<open>JSONDecodeError\<close>, a \<open>!save\<close> with a non-empty payload takes the
  prior content as empty and rewrites the file to hold exactly the new entry. A \<open>!load\<close>
  whose zone argument is empty or resolves replies with the corruption message alone on
  \<open>JSONDecodeError\<close>, and with the no-data message alone when the file is absent.
\<close>

lemma read_recovery:
  "(startswith (content m) ''!save''
      \<and> strip (drop (length ''!save '') (content m)) \<noteq> []
      \<and> (data_file w = Absent \<or> (\<exists>raw. data_file w = Unparseable raw))
    \<longrightarrow> on_message E m w =
          (w\<lparr>data_file := Parsed (JArr [saved_entry m (strip (drop (length ''!save '') (content m)))]),
             fs_ops := fs_ops w @ [OpenRead, OpenWrite],
             sent := sent w @ [saved_reply]\<rparr>, None))
   \<and> (startswith (content m) ''!load''
      \<and> resolve_tz E (strip (drop (length ''!load'') (content m))) = Inr tz_obj
    \<longrightarrow> ((\<exists>raw. data_file w = Unparseable raw)
           \<longrightarrow> on_message E m w =
                 (w\<lparr>fs_ops := fs_ops w @ [OpenRead], sent := sent w @ [corrupted_reply]\<rparr>, None))
        \<and> (data_file w = Absent
           \<longrightarrow> on_message E m w =
                 (w\<lparr>fs_ops := fs_ops w @ [OpenRead], sent := sent w @ [no_data_reply]\<rparr>, None)))"
proof (intro conjI impI)
  assume "startswith (content m) ''!save''
      \<and> strip (drop (length ''!save '') (content m)) \<noteq> []
      \<and> (data_file w = Absent \<or> (\<exists>raw. data_file w = Unparseable raw))"
  then show "on_message E m w =
          (w\<lparr>data_file := Parsed (JArr [saved_entry m (strip (drop (length ''!save '') (content m)))]),
             fs_ops := fs_ops w @ [OpenRead, OpenWrite],
             sent := sent w @ [saved_reply]\<rparr>, None)"
    by (simp add: on_message_save save_command_unreadable)
next
  assume h: "startswith (content m) ''!load''
      \<and> resolve_tz E (strip (drop (length ''!load'') (content m))) = Inr tz_obj"
  then have tz: "resolve_tz E (strip (drop (length ''!load'') (content m))) = Inr tz_obj" by simp
  assume "\<exists>raw. data_file w = Unparseable raw"
  then have "load_body E tz_obj (data_file w) = Inl JSONDecodeError"
    by (auto simp: load_body_def friendly_text_def json_load_def)
  then show "on_message E m w =
      (w\<lparr>fs_ops := fs_ops w @ [OpenRead], sent := sent w @ [corrupted_reply]\<rparr>, None)"
    using h by (simp add: on_message_load load_command_resolved [OF tz] send_def open_file_def)
next
  assume h: "startswith (content m) ''!load''
      \<and> resolve_tz E (strip (drop (length ''!load'') (content m))) = Inr tz_obj"
  then have tz: "resolve_tz E (strip (drop (length ''!load'') (content m))) = Inr tz_obj" by simp
  assume "data_file w = Absent"
  then have "load_body E tz_obj (data_file w) = Inl FileNotFoundError"
    by (simp add: load_body_def friendly_text_def json_load_def)
  then show "on_message E m w =
      (w\<lparr>fs_ops := fs_ops w @ [OpenRead], sent := sent w @ [no_data_reply]\<rparr>, None)"
    using h by (simp add: on_message_load load_command_resolved [OF tz] send_def open_file_def)
qed

lemma strip_hello: "strip ''hello'' = ''hello''"
  by (simp add: strip_def isspace_def)

lemma read_recovery_sample:
  "startswith (content hello_save) ''!save''
   \<and> strip (drop (length ''!save '') (content hello_save)) \<noteq> []
   \<and> (\<exists>raw. data_file corrupt_world = Unparseable raw)
   \<and> on_message sample_env hello_save corrupt_world =
        (\<lparr>data_file = Parsed (JArr [saved_entry hello_save ''hello'']),
          fs_ops = [OpenRead, OpenWrite], sent = [saved_reply]\<rparr>, None)
   \<and> startswith (content plain_load) ''!load''
   \<and> resolve_tz sample_env (strip (drop (length ''!load'') (content plain_load))) = Inr None
   \<and> on_message sample_env plain_load corrupt_world =
        (\<lparr>data_file = Unparseable ''{broken'', fs_ops = [OpenRead], sent = [corrupted_reply]\<rparr>, None)
   \<and> data_file fresh_world = Absent
   \<and> on_message sample_env plain_load fresh_world =
        (\<lparr>data_file = Absent, fs_ops = [OpenRead], sent = [no_data_reply]\<rparr>, None)"
proof -
  have s1: "startswith (content hello_save) ''!save''"
    by (simp add: hello_save_def startswith_def)
  have s2: "strip (drop (length ''!save '') (content hello_save)) = ''hello''"
    by (simp add: hello_save_def strip_hello)
  have s3: "\<exists>raw. data_file corrupt_world = Unparseable raw"
    by (simp add: corrupt_world_def)
  have l1: "startswith (content plain_load) ''!load''"
    by (simp add: plain_load_def startswith_def)
  have l2: "resolve_tz sample_env (strip (drop (length ''!load'') (content plain_load))) = Inr None"
    by (simp add: plain_load_def resolve_tz_def strip_def)
  have l3: "data_file fresh_world = Absent"
    by (simp add: fresh_world_def)
  note save = read_recovery [of hello_save corrupt_world sample_env None]
  note load1 = read_recovery [of plain_load corrupt_world sample_env None]
  note load2 = read_recovery [of plain_load fresh_world sample_env None]
  have a: "on_message sample_env hello_save corrupt_world =
        (\<lparr>data_file = Parsed (JArr [saved_entry hello_save ''hello'']),
          fs_ops = [OpenRead, OpenWrite], sent = [saved_reply]\<rparr>, None)"
    using save s1 s2 s3 by (simp add: corrupt_world_def)
  have b: "on_message sample_env plain_load corrupt_world =
        (\<lparr>data_file = Unparseable ''{broken'', fs_ops = [OpenRead], sent = [corrupted_reply]\<rparr>, None)"
    using load1 l1 l2 s3 by (simp add: corrupt_world_def)
  have c: "on_message sample_env plain_load fresh_world =
        (\<lparr>data_file = Absent, fs_ops = [OpenRead], sent = [no_data_reply]\<rparr>, None)"
    using load2 l1 l2 l3 by (simp add: fresh_world_def)
  from s1 s2 s3 l1 l2 l3 a b c show ?thesis by simp
qed

text \<open>Every other failure of the read leaves both commands.\<close>

lemma save_raises:
  assumes "startswith (content m) ''!save''"
    and "strip (drop (length ''!save '') (content m)) \<noteq> []"
    and "json_load (data_file w) = Inl e"
    and "e \<noteq> FileNotFoundError" and "e \<noteq> JSONDecodeError"
  shows "on_message E m w = (w\<lparr>fs_ops := fs_ops w @ [OpenRead]\<rparr>, Some e)"
proof -
  from assms(3-5) have "existing_data (data_file w) = Inl e"
    by (simp add: existing_data_def)
  with assms(2) have "save_command m w = (w\<lparr>fs_ops := fs_ops w @ [OpenRead]\<rparr>, Raise e)"
    by (simp add: save_command_def Let_def open_file_def)
  then show ?thesis by (simp add: on_message_save [OF assms(1)])
qed

lemma load_raises:
  assumes "startswith (content m) ''!load''"
    and "resolve_tz E (strip (drop (length ''!load'') (content m))) = Inr tz_obj"
    and "json_load (data_file w) = Inl e"
    and "e \<noteq> FileNotFoundError" and "e \<noteq> JSONDecodeError"
  shows "on_message E m w = (w\<lparr>fs_ops := fs_ops w @ [OpenRead]\<rparr>, Some e)"
proof -
  from assms(3) have "load_body E tz_obj (data_file w) = Inl e"
    by (simp add: load_body_def friendly_text_def)
  with assms(4,5) show ?thesis
    by (simp add: on_message_load [OF assms(1)] load_command_resolved [OF assms(2)] open_file_def)
qed

text \<open>
  Claim C7. A \<open>!save\<close> should succeed on every storage file that does not parse, taking
  it as empty, and a \<open>!load\<close> should answer with the corruption message; line 67 says so
  (\<open>Corrupted file, overwrite with a fresh list\<close>). A file that is not valid UTF-8 does not
  parse either, but reading it raises \<open>UnicodeDecodeError\<close>, which neither lines 64 to 68
  nor lines 158 to 161 catch: the \<open>!save\<close> raises before it writes and sends nothing, and
  the \<open>!load\<close> raises and sends nothing.
\<close>

theorem C7_undecodable_file:
  "json_load (data_file not_utf8_world) = Inl UnicodeDecodeError
   \<and> on_message sample_env hello_save not_utf8_world
       = (\<lparr>data_file = NotUTF8, fs_ops = [OpenRead], sent = []\<rparr>, Some UnicodeDecodeError)
   \<and> on_message sample_env plain_load not_utf8_world
       = (\<lparr>data_file = NotUTF8, fs_ops = [OpenRead], sent = []\<rparr>, Some UnicodeDecodeError)"
proof -
  have f: "json_load (data_file not_utf8_world) = Inl UnicodeDecodeError"
    by (simp add: not_utf8_world_def json_load_def)
  have s1: "startswith (content hello_save) ''!save''"
    by (simp add: hello_save_def startswith_def)
  have s2: "strip (drop (length ''!save '') (content hello_save)) \<noteq> []"
    by (simp add: hello_save_def strip_hello)
  have l1: "startswith (content plain_load) ''!load''"
    by (simp add: plain_load_def startswith_def)
  have l2: "resolve_tz sample_env (strip (drop (length ''!load'') (content plain_load))) = Inr None"
    by (simp add: plain_load_def resolve_tz_def strip_def)
  from save_raises [OF s1 s2 f, of sample_env] load_raises [OF l1 l2 f] f show ?thesis
    by (simp add: not_utf8_world_def)
qed

section \<open>An unknown zone argument\<close>

lemma unknown_timezone_reply:
  assumes "startswith (content m) ''!load''"
    and "strip (drop (length ''!load'') (content m)) = tz_arg"
    and "tz_arg \<noteq> []"
    and "ZoneInfo E tz_arg = Inl ZoneInfoNotFoundError"
  shows "on_message E m w = (w\<lparr>sent := sent w @ [unknown_timezone tz_arg]\<rparr>, None)"
proof -
  from assms(2-4) have "resolve_tz E (strip (drop (length ''!load'') (content m)))
      = Inl ZoneInfoNotFoundError"
    by (simp add: resolve_tz_def)
  from load_command_unresolved [OF this] assms(1,2) show ?thesis
    by (simp add: on_message_load send_def)
qed

lemma zone_error_propagates:
  assumes "startswith (content m) ''!load''"
    and "strip (drop (length ''!load'') (content m)) = tz_arg"
    and "tz_arg \<noteq> []"
    and "ZoneInfo E tz_arg = Inl e"
    and "e \<noteq> ZoneInfoNotFoundError"
  shows "on_message E m w = (w, Some e)"
proof -
  from assms(2-4) have "resolve_tz E (strip (drop (length ''!load'') (content m))) = Inl e"
    by (simp add: resolve_tz_def)
  from load_command_unresolved [OF this] assms(1,5) show ?thesis
    by (simp add: on_message_load)
qed

lemma strip_tail_badzone: "strip '' badzone'' = ''badzone''"
  by (simp add: strip_def isspace_def)

lemma strip_tail_malformed: "strip '' ../x'' = ''../x''"
  by (simp add: strip_def isspace_def)

lemma bad_zone_load_reply:
  "on_message sample_env bad_zone_load corrupt_world
     = (corrupt_world\<lparr>sent := [unknown_timezone ''badzone'']\<rparr>, None)"
proof -
  have a: "startswith (content bad_zone_load) ''!load''"
    by (simp add: bad_zone_load_def startswith_def)
  have b: "strip (drop (length ''!load'') (content bad_zone_load)) = ''badzone''"
    by (simp add: bad_zone_load_def strip_tail_badzone)
  have c: "ZoneInfo sample_env ''badzone'' = Inl ZoneInfoNotFoundError"
    by (simp add: sample_env_def)
  from unknown_timezone_reply [OF a b _ c, of corrupt_world] show ?thesis
    by (simp add: corrupt_world_def)
qed

text \<open>
  Claim C6. A \<open>!load\<close> whose argument does not resolve to a zone should be answered with
  the unknown-timezone message. \<open>ZoneInfo\<close> rejects a key that is not a normalised
  relative path under the zone directory, such as \<open>../x\<close>, with \<open>ValueError\<close>, which line 83
  does not catch: the handler raises and sends nothing.
\<close>

theorem C6_malformed_zone_key:
  "ZoneInfo sample_env ''../x'' = Inl ValueError
   \<and> on_message sample_env malformed_zone_load fresh_world = (fresh_world, Some ValueError)
   \<and> sent (fst (on_message sample_env malformed_zone_load fresh_world)) = []"
proof -
  have a: "startswith (content malformed_zone_load) ''!load''"
    by (simp add: malformed_zone_load_def startswith_def)
  have b: "strip (drop (length ''!load'') (content malformed_zone_load)) = ''../x''"
    by (simp add: malformed_zone_load_def strip_tail_malformed)
  have c: "ZoneInfo sample_env ''../x'' = Inl ValueError"
    by (simp add: sample_env_def)
  from zone_error_propagates [OF a b _ c, of fresh_world] c show ?thesis
    by (simp add: fresh_world_def)
qed

section \<open>An empty rendering\<close>

lemma setdefault_append_not_Nil: "setdefault_append g key entry \<noteq> []"
  by (cases g) (auto split: if_splits)

lemma group_entry_not_Nil: "group_entry g entry = Inr g' \<Longrightarrow> g' \<noteq> []"
  by (auto simp: group_entry_def Let_def setdefault_append_not_Nil split: json.splits if_splits)

lemma group_loop_keeps_groups: "group_loop g xs = Inr g' \<Longrightarrow> g \<noteq> [] \<Longrightarrow> g' \<noteq> []"
proof (induction xs arbitrary: g)
  case Nil
  then show ?case by simp
next
  case (Cons x xs)
  from Cons.prems(1) obtain g1 where g1: "group_entry g x = Inr g1" and rest: "group_loop g1 xs = Inr g'"
    by (auto split: sum.splits)
  from group_entry_not_Nil [OF g1] Cons.IH [OF rest] show ?case by simp
qed

lemma group_loop_Nil_result: "group_loop g xs = Inr [] \<Longrightarrow> xs = []"
proof (cases xs)
  case Nil
  then show ?thesis by simp
next
  case (Cons x rest)
  assume a: "group_loop g xs = Inr []"
  with Cons obtain g1 where g1: "group_entry g x = Inr g1" and r: "group_loop g1 rest = Inr []"
    by (auto split: sum.splits)
  from group_loop_keeps_groups [OF r group_entry_not_Nil [OF g1]] show ?thesis by simp
qed

lemma join_Cons_not_Nil: "x \<noteq> [] \<Longrightarrow> join sep (x # xs) \<noteq> []"
  by (cases xs) auto

lemma author_line_not_Nil: "author_line a n \<noteq> []"
  by (simp add: author_line_def)

lemma render_groups_text_not_Nil:
  assumes "render_groups E tz_obj g = Inr parts" and "g \<noteq> []"
  shows "join sep parts \<noteq> []"
proof -
  from assms(2) obtain a entries rest where g: "g = (a, entries) # rest"
    by (cases g) auto
  with assms(1) obtain ps where "parts = author_line a (length entries) # ps"
    by (auto split: sum.splits)
  then show ?thesis
    by (simp add: join_Cons_not_Nil author_line_not_Nil)
qed

lemma friendly_text_empty_store: "friendly_text E tz_obj (Parsed (JArr [])) = Inr []"
  by (simp add: friendly_text_def json_load_def normalize_def)

lemma friendly_text_empty_only:
  assumes "friendly_text E tz_obj f = Inr []"
  shows "f = Parsed (JArr [])"
proof -
  from assms obtain data g parts where f: "json_load f = Inr data"
    and g: "group_loop [] (normalize data) = Inr g"
    and p: "render_groups E tz_obj g = Inr parts"
    and j: "join [newline] parts = []"
    by (auto simp: friendly_text_def split: sum.splits)
  from render_groups_text_not_Nil [OF p] j have "g = []" by blast
  with g have "normalize data = []" by (auto dest: group_loop_Nil_result)
  then have "data = JArr []" by (auto simp: normalize_def split: json.splits)
  with f show ?thesis by (auto simp: json_load_def split: file_state.splits)
qed

text \<open>
  Claim C10. When the rendered text is the empty string, a \<open>!load\<close> sends no message at
  all, not even the header: pagination of an empty text emits nothing. The rendered text
  is empty exactly when the storage file holds the empty array.
\<close>

theorem C10_empty_store_sends_nothing:
  "(startswith (content m) ''!load''
      \<and> resolve_tz E (strip (drop (length ''!load'') (content m))) = Inr tz_obj
      \<and> friendly_text E tz_obj (data_file w) = Inr []
    \<longrightarrow> on_message E m w = (w\<lparr>fs_ops := fs_ops w @ [OpenRead]\<rparr>, None)
        \<and> sent (fst (on_message E m w)) = sent w)
   \<and> send_paginated ''Saved messages:'' [] None = []
   \<and> (friendly_text E tz_obj f = Inr [] \<longleftrightarrow> f = Parsed (JArr []))"
proof (intro conjI impI)
  assume h: "startswith (content m) ''!load''
      \<and> resolve_tz E (strip (drop (length ''!load'') (content m))) = Inr tz_obj
      \<and> friendly_text E tz_obj (data_file w) = Inr []"
  then have tz: "resolve_tz E (strip (drop (length ''!load'') (content m))) = Inr tz_obj" by simp
  from h have "load_body E tz_obj (data_file w) = Inr []"
    by (simp add: load_body_def send_paginated_empty)
  with h show r: "on_message E m w = (w\<lparr>fs_ops := fs_ops w @ [OpenRead]\<rparr>, None)"
    by (simp add: on_message_load load_command_resolved [OF tz] send_all_def open_file_def)
  show "sent (fst (on_message E m w)) = sent w" by (simp add: r)
next
  show "send_paginated ''Saved messages:'' [] None = []" by (rule send_paginated_empty)
next
  show "friendly_text E tz_obj f = Inr [] \<longleftrightarrow> f = Parsed (JArr [])"
    using friendly_text_empty_only friendly_text_empty_store by blast
qed

theorem C10_empty_store_sends_nothing_witness:
  "startswith (content plain_load) ''!load''
   \<and> resolve_tz sample_env (strip (drop (length ''!load'') (content plain_load))) = Inr None
   \<and> friendly_text sample_env None (data_file empty_store_world) = Inr []
   \<and> on_message sample_env plain_load empty_store_world
       = (\<lparr>data_file = Parsed (JArr []), fs_ops = [OpenRead], sent = []\<rparr>, None)"
proof -
  have l1: "startswith (content plain_load) ''!load''"
    by (simp add: plain_load_def startswith_def)
  have l2: "resolve_tz sample_env (strip (drop (length ''!load'') (content plain_load))) = Inr None"
    by (simp add: plain_load_def resolve_tz_def strip_def)
  have l3: "friendly_text sample_env None (data_file empty_store_world) = Inr []"
    by (simp add: empty_store_world_def friendly_text_empty_store)
  from C10_empty_store_sends_nothing [of plain_load sample_env None empty_store_world] l1 l2 l3
  have "on_message sample_env plain_load empty_store_world
      = (empty_store_world\<lparr>fs_ops := fs_ops empty_store_world @ [OpenRead]\<rparr>, None)"
    by blast
  with l1 l2 l3 show ?thesis by (simp add: empty_store_world_def)
qed

section \<open>Rendering one entry\<close>

lemma render_entries_append:
  "render_entries E tz_obj idx (xs @ ys) =
     (case render_entries E tz_obj idx xs of
        Inl x \<Rightarrow> Inl x
      | Inr a \<Rightarrow>
          (case render_entries E tz_obj (idx + length xs) ys of
             Inl x \<Rightarrow> Inl x
           | Inr b \<Rightarrow> Inr (a @ b)))"
proof (induction xs arbitrary: idx)
  case Nil
  then show ?case by (simp split: sum.splits)
next
  case (Cons x xs)
  show ?case
    by (simp add: Cons.IH split: sum.splits)
qed

lemma human_ts_fallback:
  assumes "s \<noteq> []" and "localize E tz_obj s = Inl e" and "isinstance_ValueError e"
  shows "human_ts E tz_obj (JStr s) = Inr (Some s)"
  using assms by (simp add: human_ts_def)

lemma human_ts_falsy: "\<not> truthy ts \<Longrightarrow> human_ts E tz_obj ts = Inr None"
  by (simp add: human_ts_def)

text \<open>
  Claim C3, as the code has it. An entry whose \<open>timestamp\<close> is a non-empty string that the
  conversion rejects with \<open>ValueError\<close> shows that string unchanged on its Timestamp line;
  the entries before and after it are rendered as they would be without it. An entry
  whose \<open>timestamp\<close> is falsy (null, or the empty string) shows \<open>None\<close>.
\<close>

theorem C3_timestamp_fallback:
  "(entry_timestamp ent = JStr s \<and> s \<noteq> [] \<and> localize E tz_obj s = Inl e \<and> isinstance_ValueError e
     \<longrightarrow> render_entry E tz_obj idx ent
           = Inr [payload_line idx (entry_payload ent), ''       Timestamp: '' @ s]
       \<and> render_entries E tz_obj idx (before @ ent # after) =
           (case render_entries E tz_obj idx before of
              Inl x \<Rightarrow> Inl x
            | Inr a \<Rightarrow>
                (case render_entries E tz_obj (idx + length before + 1) after of
                   Inl x \<Rightarrow> Inl x
                 | Inr b \<Rightarrow>
                     Inr (a @ [payload_line (idx + length before) (entry_payload ent),
                               ''       Timestamp: '' @ s] @ b))))
   \<and> (\<not> truthy (entry_timestamp ent)
     \<longrightarrow> render_entry E tz_obj idx ent
           = Inr [payload_line idx (entry_payload ent), ''       Timestamp: None''])"
proof (intro conjI impI)
  assume h: "entry_timestamp ent = JStr s \<and> s \<noteq> [] \<and> localize E tz_obj s = Inl e
      \<and> isinstance_ValueError e"
  then have ts: "human_ts E tz_obj (entry_timestamp ent) = Inr (Some s)"
    by (simp add: human_ts_fallback)
  then have one: "render_entry E tz_obj i ent
      = Inr [payload_line i (entry_payload ent), ''       Timestamp: '' @ s]" for i
    by (simp add: render_entry_def timestamp_line_def)
  from one show "render_entry E tz_obj idx ent
      = Inr [payload_line idx (entry_payload ent), ''       Timestamp: '' @ s]" .
  show "render_entries E tz_obj idx (before @ ent # after) =
           (case render_entries E tz_obj idx before of
              Inl x \<Rightarrow> Inl x
            | Inr a \<Rightarrow>
                (case render_entries E tz_obj (idx + length before + 1) after of
                   Inl x \<Rightarrow> Inl x
                 | Inr b \<Rightarrow>
                     Inr (a @ [payload_line (idx + length before) (entry_payload ent),
                               ''       Timestamp: '' @ s] @ b)))"
    by (simp add: render_entries_append one split: sum.splits)
next
  assume "\<not> truthy (entry_timestamp ent)"
  then show "render_entry E tz_obj idx ent
      = Inr [payload_line idx (entry_payload ent), ''       Timestamp: None'']"
    by (simp add: render_entry_def human_ts_falsy timestamp_line_def)
qed

theorem C3_timestamp_fallback_witness:
  "entry_timestamp garbage_ts_entry = JStr ''garbage'' \<and> ''garbage'' \<noteq> []
   \<and> localize sample_env None ''garbage'' = Inl ValueError \<and> isinstance_ValueError ValueError
   \<and> render_entry sample_env None 1 garbage_ts_entry
       = Inr [''  1) '' @ [CHR 0x22] @ ''x'' @ [CHR 0x22], ''       Timestamp: garbage'']
   \<and> \<not> truthy (entry_timestamp (legacy_entry (JStr ''hello'')))
   \<and> render_entry sample_env None 1 (legacy_entry (JStr ''hello''))
       = Inr [''  1) '' @ [CHR 0x22] @ ''hello'' @ [CHR 0x22], ''       Timestamp: None'']"
proof -
  have a: "entry_timestamp garbage_ts_entry = JStr ''garbage''"
    by (simp add: garbage_ts_entry_def entry_timestamp_def dict_get_def)
  have b: "localize sample_env None ''garbage'' = Inl ValueError"
    by (simp add: sample_env_def)
  have c: "isinstance_ValueError ValueError"
    by (simp add: isinstance_ValueError_def)
  have d: "\<not> truthy (entry_timestamp (legacy_entry (JStr ''hello'')))"
    by (simp add: legacy_entry_def entry_timestamp_def dict_get_def)
  have p1: "payload_line 1 (entry_payload garbage_ts_entry) = ''  1) '' @ [CHR 0x22] @ ''x'' @ [CHR 0x22]"
    by code_simp
  have p2: "payload_line 1 (entry_payload (legacy_entry (JStr ''hello'')))
      = ''  1) '' @ [CHR 0x22] @ ''hello'' @ [CHR 0x22]"
    by code_simp
  from C3_timestamp_fallback [of garbage_ts_entry "''garbage''" sample_env None ValueError 1 "[]" "[]"]
    a b c
  have r1: "render_entry sample_env None 1 garbage_ts_entry
      = Inr [payload_line 1 (entry_payload garbage_ts_entry), ''       Timestamp: '' @ ''garbage'']"
    by simp
  from C3_timestamp_fallback [of "legacy_entry (JStr ''hello'')" _ sample_env None _ 1] d
  have r2: "render_entry sample_env None 1 (legacy_entry (JStr ''hello''))
      = Inr [payload_line 1 (entry_payload (legacy_entry (JStr ''hello''))), ''       Timestamp: None'']"
    by blast
  from a b c d r1 r2 p1 p2 show ?thesis by simp
qed

text \<open>
  Claim C3 as stated fails for the empty string: it is a string that does not parse,
  yet line 117 treats it as no timestamp, so the line shows \<open>None\<close> and not the stored
  string.
\<close>

theorem C3_empty_timestamp_counterexample:
  "entry_timestamp empty_ts_entry = JStr []
   \<and> localize sample_env None [] = Inl ValueError
   \<and> render_entry sample_env None 1 empty_ts_entry
       = Inr [''  1) '' @ [CHR 0x22] @ ''x'' @ [CHR 0x22], ''       Timestamp: None'']
   \<and> render_entry sample_env None 1 empty_ts_entry
       \<noteq> Inr [''  1) '' @ [CHR 0x22] @ ''x'' @ [CHR 0x22], ''       Timestamp: '' @ []]
   \<and> on_message sample_env plain_load empty_ts_world =
       (\<lparr>data_file = Parsed (JArr [empty_ts_entry]), fs_ops = [OpenRead],
         sent = [''Saved messages:'' @ [newline] @ ''Author: alice (1 message(s))'' @ [newline]
                 @ ''  1) '' @ [CHR 0x22] @ ''x'' @ [CHR 0x22] @ [newline]
                 @ ''       Timestamp: None'' @ [newline]]\<rparr>, None)"
  by code_simp

section \<open>Legacy entries\<close>

lemma py_eq_JStr: "py_eq k (JStr a) \<longleftrightarrow> k = JStr a"
  by (cases k) (auto simp: py_eq_def)

lemma setdefault_append_str_group:
  "\<exists>es. (JStr a, es @ [entry]) \<in> set (setdefault_append g (JStr a) entry)"
proof (induction g)
  case Nil
  have "(JStr a, [] @ [entry]) \<in> set (setdefault_append [] (JStr a) entry)" by simp
  then show ?case by blast
next
  case (Cons kv g)
  obtain k es where kv: "kv = (k, es)" by (cases kv)
  show ?case
  proof (cases "py_eq k (JStr a)")
    case True
    then have "(JStr a, es @ [entry]) \<in> set (setdefault_append (kv # g) (JStr a) entry)"
      by (simp add: kv py_eq_JStr)
    then show ?thesis by blast
  next
    case False
    with Cons.IH show ?thesis by (auto simp: kv)
  qed
qed

lemma group_entry_legacy:
  "\<not> is_author_dict v \<Longrightarrow>
   group_entry g v = Inr (setdefault_append g (JStr ''unknown'') (legacy_entry v))"
  by (auto simp: group_entry_def is_author_dict_def split: json.splits)

lemma legacy_entry_fields:
  "entry_payload (legacy_entry v) = v" "entry_timestamp (legacy_entry v) = JNull"
  by (simp_all add: legacy_entry_def entry_payload_def entry_timestamp_def has_key_def dict_get_def)

text \<open>
  Claim C8. A stored element that is not an object with an \<open>author\<close> key is appended to
  the group of author \<open>unknown\<close> as an entry whose payload is the stored value and whose
  timestamp is null; it is rendered as the JSON text of the value and the timestamp
  \<open>None\<close>.
\<close>

theorem C8_legacy_entry:
  "\<not> is_author_dict v \<longrightarrow>
     group_entry g v = Inr (setdefault_append g (JStr ''unknown'') (legacy_entry v))
   \<and> (\<exists>es. (JStr ''unknown'', es @ [legacy_entry v])
             \<in> set (setdefault_append g (JStr ''unknown'') (legacy_entry v)))
   \<and> entry_payload (legacy_entry v) = v
   \<and> entry_timestamp (legacy_entry v) = JNull
   \<and> render_entry E tz_obj idx (legacy_entry v)
       = Inr [''  '' @ str_nat idx @ '') '' @ json_dumps v, ''       Timestamp: None'']"
proof (intro impI conjI)
  assume "\<not> is_author_dict v"
  then show "group_entry g v = Inr (setdefault_append g (JStr ''unknown'') (legacy_entry v))"
    by (rule group_entry_legacy)
next
  show "\<exists>es. (JStr ''unknown'', es @ [legacy_entry v])
             \<in> set (setdefault_append g (JStr ''unknown'') (legacy_entry v))"
    by (rule setdefault_append_str_group)
next
  show "render_entry E tz_obj idx (legacy_entry v)
       = Inr [''  '' @ str_nat idx @ '') '' @ json_dumps v, ''       Timestamp: None'']"
    by (simp add: render_entry_def legacy_entry_fields human_ts_falsy payload_line_def
        timestamp_line_def)
qed (simp_all add: legacy_entry_fields)

theorem C8_legacy_entry_witness:
  "\<not> is_author_dict (JStr ''hello'')
   \<and> group_loop [] [JStr ''hello''] = Inr [(JStr ''unknown'', [legacy_entry (JStr ''hello'')])]
   \<and> render_entry sample_env None 1 (legacy_entry (JStr ''hello''))
       = Inr [''  1) '' @ [CHR 0x22] @ ''hello'' @ [CHR 0x22], ''       Timestamp: None'']"
proof -
  have a: "\<not> is_author_dict (JStr ''hello'')" by (simp add: is_author_dict_def)
  from C8_legacy_entry [of "JStr ''hello''" "[]" sample_env None 1] a
  have g: "group_entry [] (JStr ''hello'')
      = Inr (setdefault_append [] (JStr ''unknown'') (legacy_entry (JStr ''hello'')))"
    and r: "render_entry sample_env None 1 (legacy_entry (JStr ''hello''))
      = Inr [''  '' @ str_nat 1 @ '') '' @ json_dumps (JStr ''hello''), ''       Timestamp: None'']"
    by blast+
  have n: "''  '' @ str_nat 1 @ '') '' @ json_dumps (JStr ''hello'')
      = ''  1) '' @ [CHR 0x22] @ ''hello'' @ [CHR 0x22]"
    by code_simp
  from a g r n show ?thesis by simp
qed

lemma legacy_load_eval:
  "on_message sample_env plain_load legacy_world =
     (\<lparr>data_file = Parsed (JArr [JStr ''hello'']), fs_ops = [OpenRead],
       sent = [''Saved messages:'' @ [newline] @ ''Author: unknown (1 message(s))'' @ [newline]
               @ ''  1) '' @ [CHR 0x22] @ ''hello'' @ [CHR 0x22] @ [newline]
               @ ''       Timestamp: None'' @ [newline]]\<rparr>, None)"
  by code_simp

section \<open>Saving entries\<close>

lemma existing_data_recovers: "recovers f \<Longrightarrow> existing_data f = Inr (stored_list f)"
  by (simp add: recovers_def existing_data_def stored_list_def json_load_def
      split: file_state.splits json.splits)

lemma existing_data_raises:
  "\<not> recovers f \<Longrightarrow>
   \<exists>e. existing_data f = Inl e \<and> e \<noteq> FileNotFoundError \<and> e \<noteq> JSONDecodeError"
  by (simp add: recovers_def existing_data_def json_load_def split: file_state.splits)

lemma recovers_Parsed [simp]: "recovers (Parsed v)"
  by (simp add: recovers_def)

lemma recovers_Absent [simp]: "recovers Absent"
  by (simp add: recovers_def)

lemma on_message_is_save:
  assumes "is_save m" and "recovers (data_file w)"
  shows "on_message E m w =
     (w\<lparr>data_file := Parsed (JArr (stored_list (data_file w) @ [stored m])),
        fs_ops := fs_ops w @ [OpenRead, OpenWrite],
        sent := sent w @ [saved_reply]\<rparr>, None)"
proof -
  from assms have s: "startswith (content m) ''!save''"
    and p: "strip (drop (length ''!save '') (content m)) \<noteq> []"
    by (simp_all add: is_save_def payload_of_def)
  from p have "save_command m w =
     (w\<lparr>data_file := Parsed (JArr (stored_list (data_file w) @ [stored m])),
        fs_ops := fs_ops w @ [OpenRead, OpenWrite],
        sent := sent w @ [saved_reply]\<rparr>, Continue)"
    by (simp add: save_command_def Let_def existing_data_recovers [OF assms(2)] open_file_def
        send_def stored_def
        payload_of_def)
  then show ?thesis by (simp add: on_message_save [OF s])
qed

lemma stored_list_Parsed_JArr [simp]: "stored_list (Parsed (JArr xs)) = xs"
  by (simp add: stored_list_def)

lemma handle_all_Nil [simp]: "handle_all E [] w = w"
  by (simp add: handle_all_def)

lemma handle_all_Cons: "handle_all E (m # ms) w = handle_all E ms (fst (on_message E m w))"
  by (simp add: handle_all_def)

lemma handle_all_saves:
  assumes "list_all is_save ms" and "recovers (data_file w)"
  shows "data_file (handle_all E ms w) =
       (if ms = [] then data_file w
        else Parsed (JArr (stored_list (data_file w) @ map stored ms)))
     \<and> sent (handle_all E ms w) = sent w @ replicate (length ms) saved_reply"
  using assms
proof (induction ms arbitrary: w)
  case Nil
  then show ?case by simp
next
  case (Cons m ms)
  then have m: "is_save m" and ms: "list_all is_save ms" and r: "recovers (data_file w)"
    by simp_all
  let ?w1 = "fst (on_message E m w)"
  have f1: "data_file ?w1 = Parsed (JArr (stored_list (data_file w) @ [stored m]))"
    and s1: "sent ?w1 = sent w @ [saved_reply]"
    by (simp_all add: on_message_is_save [OF m r])
  have r1: "recovers (data_file ?w1)" by (simp add: f1)
  from Cons.IH [OF ms r1] show ?case
    by (simp add: handle_all_Cons f1 s1 replicate_append_same [symmetric] del: replicate_Suc)
       (simp add: replicate_append_same)
qed


section \<open>Grouping and rendering a list of entries\<close>

lemma group_loop_append:
  "group_loop g (xs @ ys) =
     (case group_loop g xs of Inl x \<Rightarrow> Inl x | Inr g1 \<Rightarrow> group_loop g1 ys)"
  by (induction xs arbitrary: g) (simp_all split: sum.splits)

lemma group_size_setdefault_append:
  "group_size (setdefault_append g key entry) = Suc (group_size g)"
  by (induction g) (auto simp: group_size_def)

lemma group_entry_size: "group_entry g entry = Inr g' \<Longrightarrow> group_size g' = Suc (group_size g)"
  by (auto simp: group_entry_def Let_def group_size_setdefault_append
      split: json.splits if_splits)

lemma group_loop_size: "group_loop g xs = Inr g' \<Longrightarrow> group_size g' = group_size g + length xs"
proof (induction xs arbitrary: g)
  case Nil
  then show ?case by simp
next
  case (Cons x xs)
  from Cons.prems obtain g1 where g1: "group_entry g x = Inr g1" and r: "group_loop g1 xs = Inr g'"
    by (auto split: sum.splits)
  from Cons.IH [OF r] group_entry_size [OF g1] show ?case by simp
qed

text \<open>The entries of all groups.\<close>

lemma entries_of_simps:
  "entries_of [] = []" "entries_of ((k, es) # g) = es @ entries_of g"
  by (simp_all add: entries_of_def)

lemma set_setdefault_append:
  "set (entries_of (setdefault_append g key entry)) = insert entry (set (entries_of g))"
proof (induction g)
  case Nil
  show ?case by (simp add: entries_of_simps)
next
  case (Cons kv g)
  obtain k es where kv: "kv = (k, es)" by (cases kv)
  show ?case
  proof (cases "py_eq k key")
    case True
    then show ?thesis by (simp add: kv entries_of_simps)
  next
    case False
    then show ?thesis using Cons.IH by (simp add: kv entries_of_simps)
  qed
qed

lemma group_entry_stored:
  "group_entry g (stored m) =
     Inr (setdefault_append g (JStr (if author m = [] then ''unknown'' else author m)) (stored m))"
  by (simp add: group_entry_def stored_def saved_entry_def has_key_def dict_get_def Let_def)

lemma group_entry_entries:
  assumes "group_entry g entry = Inr g'"
  shows "set (entries_of g')
     = insert (if is_author_dict entry then entry else legacy_entry entry) (set (entries_of g))"
proof -
  from assms obtain key where
    "g' = setdefault_append g key (if is_author_dict entry then entry else legacy_entry entry)"
    by (auto simp: group_entry_def Let_def is_author_dict_def split: json.splits if_splits)
  then show ?thesis by (simp only: set_setdefault_append)
qed

lemma render_entry_converts:
  "converts E tz_obj (entry_timestamp ent) \<Longrightarrow>
   \<exists>h. render_entry E tz_obj idx ent = Inr [payload_line idx (entry_payload ent), timestamp_line h]"
  by (auto simp: converts_def render_entry_def split: sum.splits)

lemma render_entries_converts:
  assumes "\<forall>ent \<in> set es. converts E tz_obj (entry_timestamp ent)"
  shows "\<exists>ls. render_entries E tz_obj idx es = Inr ls \<and> length ls = 2 * length es"
  using assms
proof (induction es arbitrary: idx)
  case Nil
  then show ?case by simp
next
  case (Cons ent es)
  from Cons.prems render_entry_converts [of E tz_obj ent idx]
  obtain h where h: "render_entry E tz_obj idx ent
      = Inr [payload_line idx (entry_payload ent), timestamp_line h]"
    by auto
  from Cons.IH [of "Suc idx"] Cons.prems
  obtain ls where ls: "render_entries E tz_obj (Suc idx) es = Inr ls" "length ls = 2 * length es"
    by auto
  show ?case by (simp add: h ls)
qed

lemma render_groups_converts:
  assumes "\<forall>ent \<in> set (entries_of g). converts E tz_obj (entry_timestamp ent)"
  shows "\<exists>parts. render_groups E tz_obj g = Inr parts
     \<and> length parts = 2 * group_size g + 2 * length g
     \<and> (\<forall>kv \<in> set g. author_line (fst kv) (length (snd kv)) \<in> set parts)"
  using assms
proof (induction g)
  case Nil
  then show ?case by (simp add: group_size_def)
next
  case (Cons kv g)
  obtain a es where kv: "kv = (a, es)" by (cases kv)
  from Cons.prems kv have this_group: "\<forall>ent \<in> set es. converts E tz_obj (entry_timestamp ent)"
    and rest: "\<forall>ent \<in> set (entries_of g). converts E tz_obj (entry_timestamp ent)"
    by (simp_all add: entries_of_simps)
  from render_entries_converts [OF this_group, of "Suc 0"]
  obtain ls where ls: "render_entries E tz_obj (Suc 0) es = Inr ls" "length ls = 2 * length es"
    by blast
  from Cons.IH [OF rest]
  obtain parts where parts: "render_groups E tz_obj g = Inr parts"
      "length parts = 2 * group_size g + 2 * length g"
      "\<forall>kv \<in> set g. author_line (fst kv) (length (snd kv)) \<in> set parts"
    by auto
  have "render_groups E tz_obj (kv # g) = Inr (author_line a (length es) # ls @ [''''] @ parts)"
    by (simp add: kv ls parts)
  moreover have "length (author_line a (length es) # ls @ [''''] @ parts)
      = 2 * group_size (kv # g) + 2 * length (kv # g)"
    by (simp add: ls parts kv group_size_def)
  moreover have "\<forall>kv' \<in> set (kv # g).
      author_line (fst kv') (length (snd kv')) \<in> set (author_line a (length es) # ls @ [''''] @ parts)"
    using parts(3) by (auto simp: kv)
  ultimately show ?case by blast
qed

lemma group_loop_stored:
  "\<exists>g'. group_loop g (map stored ms) = Inr g'
     \<and> set (entries_of g') = set (entries_of g) \<union> stored ` set ms"
proof (induction ms arbitrary: g)
  case Nil
  then show ?case by simp
next
  case (Cons m ms)
  let ?g1 = "setdefault_append g (JStr (if author m = [] then ''unknown'' else author m)) (stored m)"
  from Cons.IH [of ?g1] obtain g' where g': "group_loop ?g1 (map stored ms) = Inr g'"
    "set (entries_of g') = set (entries_of ?g1) \<union> stored ` set ms"
    by blast
  have "group_loop g (map stored (m # ms)) = Inr g'"
    by (simp add: group_entry_stored g')
  moreover have "set (entries_of g')
      = set (entries_of g) \<union> stored ` set (m # ms)"
    by (simp add: g'(2) set_setdefault_append)
  ultimately show ?case by blast
qed

lemma entry_timestamp_stored: "entry_timestamp (stored m) = JStr (timestamp m)"
  by (simp add: stored_def saved_entry_def entry_timestamp_def dict_get_def)

lemma entry_payload_stored: "entry_payload (stored m) = JStr (payload_of m)"
  by (simp add: stored_def saved_entry_def entry_payload_def dict_get_def has_key_def)


lemma on_message_load_text:
  assumes "startswith (content l) ''!load''"
    and "strip (drop (length ''!load'') (content l)) = []"
    and "friendly_text E None (data_file w) = Inr t"
  shows "on_message E l w =
     (w\<lparr>fs_ops := fs_ops w @ [OpenRead],
        sent := sent w @ send_paginated ''Saved messages:'' t None\<rparr>, None)"
proof -
  from assms(2) have tz: "resolve_tz E (strip (drop (length ''!load'') (content l))) = Inr None"
    by (simp add: resolve_tz_def)
  from assms(3) have "load_body E None (data_file w)
      = Inr (send_paginated ''Saved messages:'' t None)"
    by (simp add: load_body_def)
  then show ?thesis
    by (simp add: on_message_load [OF assms(1)] load_command_resolved [OF tz] send_all_def
        open_file_def)
qed

section \<open>Saving \<open>N\<close> entries and loading them\<close>

text \<open>
  Claim C1. Starting from an absent storage file, \<open>N\<close> successful \<open>!save\<close> commands
  followed by a \<open>!load\<close> without argument give a grouping with exactly \<open>N\<close> entries in all
  groups together, rendered with one header line per group showing the group's count and
  two lines per entry; for \<open>N = 0\<close> the file is still absent and the reply is the no-data
  message. The saved timestamps are ones the renderer can show.
\<close>

theorem C1_round_trip_count:
  assumes "list_all is_save ms"
    and "data_file w = Absent"
    and "startswith (content l) ''!load''"
    and "strip (drop (length ''!load'') (content l)) = []"
    and "\<forall>m \<in> set ms. converts E None (JStr (timestamp m))"
  shows "(ms = [] \<longrightarrow>
            data_file (handle_all E ms w) = Absent
          \<and> on_message E l (handle_all E ms w) =
              ((handle_all E ms w)\<lparr>fs_ops := fs_ops (handle_all E ms w) @ [OpenRead],
                                  sent := sent (handle_all E ms w) @ [no_data_reply]\<rparr>, None))
       \<and> (ms \<noteq> [] \<longrightarrow>
            data_file (handle_all E ms w) = Parsed (JArr (map stored ms))
          \<and> (\<exists>g parts.
                group_loop [] (map stored ms) = Inr g
              \<and> group_size g = length ms
              \<and> render_groups E None g = Inr parts
              \<and> length parts = 2 * length ms + 2 * length g
              \<and> (\<forall>kv \<in> set g. author_line (fst kv) (length (snd kv)) \<in> set parts)
              \<and> on_message E l (handle_all E ms w) =
                  ((handle_all E ms w)
                     \<lparr>fs_ops := fs_ops (handle_all E ms w) @ [OpenRead],
                      sent := sent (handle_all E ms w)
                              @ send_paginated ''Saved messages:'' (join [newline] parts) None\<rparr>,
                   None)))"
proof (intro conjI impI)
  assume "ms = []"
  then show "data_file (handle_all E ms w) = Absent" using assms(2) by simp
  have tz: "resolve_tz E (strip (drop (length ''!load'') (content l))) = Inr None"
    using assms(4) by (simp add: resolve_tz_def)
  have "load_body E None (data_file w) = Inl FileNotFoundError"
    using assms(2) by (simp add: load_body_def friendly_text_def json_load_def)
  then show "on_message E l (handle_all E ms w) =
      ((handle_all E ms w)\<lparr>fs_ops := fs_ops (handle_all E ms w) @ [OpenRead],
                          sent := sent (handle_all E ms w) @ [no_data_reply]\<rparr>, None)"
    using \<open>ms = []\<close>
    by (simp add: on_message_load [OF assms(3)] load_command_resolved [OF tz] send_def open_file_def)
next
  assume ne: "ms \<noteq> []"
  let ?w = "handle_all E ms w"
  have rec: "recovers (data_file w)" using assms(2) by simp
  from handle_all_saves [OF assms(1) rec, of E] ne assms(2)
  show wfile: "data_file ?w = Parsed (JArr (map stored ms))"
    by (simp add: stored_list_def)
  from group_loop_stored [of "[]" ms]
  obtain g where g: "group_loop [] (map stored ms) = Inr g"
    and ents: "set (entries_of g) = stored ` set ms"
    by (auto simp: entries_of_simps)
  from group_loop_size [OF g] have size: "group_size g = length ms"
    by (simp add: group_size_def)
  from ents assms(5) have "\<forall>ent \<in> set (entries_of g). converts E None (entry_timestamp ent)"
    by (auto simp: entry_timestamp_stored)
  from render_groups_converts [OF this]
  obtain parts where parts: "render_groups E None g = Inr parts"
    and len: "length parts = 2 * group_size g + 2 * length g"
    and heads: "\<forall>kv \<in> set g. author_line (fst kv) (length (snd kv)) \<in> set parts"
    by blast
  have "friendly_text E None (data_file ?w) = Inr (join [newline] parts)"
    by (simp add: wfile friendly_text_def json_load_def normalize_def g parts)
  from on_message_load_text [OF assms(3,4) this]
  have "on_message E l ?w =
      (?w\<lparr>fs_ops := fs_ops ?w @ [OpenRead],
          sent := sent ?w @ send_paginated ''Saved messages:'' (join [newline] parts) None\<rparr>, None)" .
  with g size parts len heads
  show "\<exists>g parts.
        group_loop [] (map stored ms) = Inr g
      \<and> group_size g = length ms
      \<and> render_groups E None g = Inr parts
      \<and> length parts = 2 * length ms + 2 * length g
      \<and> (\<forall>kv \<in> set g. author_line (fst kv) (length (snd kv)) \<in> set parts)
      \<and> on_message E l ?w =
          (?w\<lparr>fs_ops := fs_ops ?w @ [OpenRead],
              sent := sent ?w @ send_paginated ''Saved messages:'' (join [newline] parts) None\<rparr>,
           None)"
    by auto
qed



theorem C1_round_trip_count_witness:
  "list_all is_save [hello_save, bob_save, hello_save]
   \<and> data_file fresh_world = Absent
   \<and> startswith (content plain_load) ''!load''
   \<and> strip (drop (length ''!load'') (content plain_load)) = []
   \<and> list_all (\<lambda>m. converts sample_env None (JStr (timestamp m))) [hello_save, bob_save, hello_save]
   \<and> (\<exists>g parts.
          group_loop [] (map stored [hello_save, bob_save, hello_save]) = Inr g
        \<and> group_size g = 3
        \<and> render_groups sample_env None g = Inr parts
        \<and> length parts = 2 * 3 + 2 * length g
        \<and> sent (fst (on_message sample_env plain_load
                  (handle_all sample_env [hello_save, bob_save, hello_save] fresh_world)))
            = [saved_reply, saved_reply, saved_reply]
              @ send_paginated ''Saved messages:'' (join [newline] parts) None)
   \<and> on_message sample_env plain_load (handle_all sample_env [] fresh_world)
       = (\<lparr>data_file = Absent, fs_ops = [OpenRead], sent = [no_data_reply]\<rparr>, None)"
proof -
  let ?ms = "[hello_save, bob_save, hello_save]"
  have a: "list_all is_save ?ms" by code_simp
  have a0: "list_all is_save []" by simp
  have b: "data_file fresh_world = Absent" by (simp add: fresh_world_def)
  have c: "startswith (content plain_load) ''!load''" by code_simp
  have d: "strip (drop (length ''!load'') (content plain_load)) = []" by code_simp
  have e: "list_all (\<lambda>m. converts sample_env None (JStr (timestamp m))) ?ms" by code_simp
  then have e': "\<forall>m \<in> set ?ms. converts sample_env None (JStr (timestamp m))"
    by (simp only: list_all_iff)
  have e0: "\<forall>m \<in> set []. converts sample_env None (JStr (timestamp m))" by simp
  have s: "sent (handle_all sample_env ?ms fresh_world) = [saved_reply, saved_reply, saved_reply]"
    using handle_all_saves [OF a, of fresh_world sample_env]
    by (simp add: fresh_world_def numeral_3_eq_3)
  from C1_round_trip_count [OF a b c d e']
  obtain g parts where
      "group_loop [] (map stored ?ms) = Inr g" "group_size g = length ?ms"
      "render_groups sample_env None g = Inr parts"
      "length parts = 2 * length ?ms + 2 * length g"
      "on_message sample_env plain_load (handle_all sample_env ?ms fresh_world) =
         ((handle_all sample_env ?ms fresh_world)
            \<lparr>fs_ops := fs_ops (handle_all sample_env ?ms fresh_world) @ [OpenRead],
             sent := sent (handle_all sample_env ?ms fresh_world)
                     @ send_paginated ''Saved messages:'' (join [newline] parts) None\<rparr>, None)"
    by blast
  then have three: "\<exists>g parts.
          group_loop [] (map stored ?ms) = Inr g
        \<and> group_size g = 3
        \<and> render_groups sample_env None g = Inr parts
        \<and> length parts = 2 * 3 + 2 * length g
        \<and> sent (fst (on_message sample_env plain_load (handle_all sample_env ?ms fresh_world)))
            = [saved_reply, saved_reply, saved_reply]
              @ send_paginated ''Saved messages:'' (join [newline] parts) None"
    using s by (intro exI [of _ g] exI [of _ parts]) simp
  from C1_round_trip_count [OF a0 b c d e0]
  have zero: "on_message sample_env plain_load (handle_all sample_env [] fresh_world)
       = (\<lparr>data_file = Absent, fs_ops = [OpenRead], sent = [no_data_reply]\<rparr>, None)"
    by (simp add: fresh_world_def)
  from a b c d e three zero show ?thesis by blast
qed

lemma three_saves_then_load:
  "sent (fst (on_message sample_env plain_load
            (handle_all sample_env [hello_save, bob_save, hello_save] fresh_world)))
     = [saved_reply, saved_reply, saved_reply,
        ''Saved messages:'' @ [newline]
        @ ''Author: alice (2 message(s))'' @ [newline]
        @ ''  1) '' @ [CHR 0x22] @ ''hello'' @ [CHR 0x22] @ [newline]
        @ ''       Timestamp: 2024-01-02 03:04:05 UTC'' @ [newline]
        @ ''  2) '' @ [CHR 0x22] @ ''hello'' @ [CHR 0x22] @ [newline]
        @ ''       Timestamp: 2024-01-02 03:04:05 UTC'' @ [newline]
        @ [newline]
        @ ''Author: bob (1 message(s))'' @ [newline]
        @ ''  1) '' @ [CHR 0x22] @ ''buy milk'' @ [CHR 0x22] @ [newline]
        @ ''       Timestamp: garbage'' @ [newline]]"
  by code_simp

section \<open>Saving a text and loading it\<close>

lemma setdefault_append_cases:
  "(\<exists>G1 es G2. g = G1 @ (JStr a, es) # G2
       \<and> setdefault_append g (JStr a) entry = G1 @ (JStr a, es @ [entry]) # G2)
   \<or> setdefault_append g (JStr a) entry = g @ [(JStr a, [entry])]"
proof (induction g)
  case Nil
  then show ?case by simp
next
  case (Cons kv g)
  obtain k es where kv: "kv = (k, es)" by (cases kv)
  show ?case
  proof (cases "py_eq k (JStr a)")
    case True
    then have k: "k = JStr a" by (simp add: py_eq_JStr)
    have "kv # g = [] @ (JStr a, es) # g
        \<and> setdefault_append (kv # g) (JStr a) entry = [] @ (JStr a, es @ [entry]) # g"
      using True by (simp add: kv k)
    then show ?thesis by blast
  next
    case False
    from Cons.IH show ?thesis
    proof
      assume "\<exists>G1 es G2. g = G1 @ (JStr a, es) # G2
          \<and> setdefault_append g (JStr a) entry = G1 @ (JStr a, es @ [entry]) # G2"
      then obtain G1 es' G2 where g: "g = G1 @ (JStr a, es') # G2"
        and r: "setdefault_append g (JStr a) entry = G1 @ (JStr a, es' @ [entry]) # G2"
        by blast
      have "kv # g = (kv # G1) @ (JStr a, es') # G2
          \<and> setdefault_append (kv # g) (JStr a) entry = (kv # G1) @ (JStr a, es' @ [entry]) # G2"
        using False g r by (simp add: kv)
      then show ?thesis by blast
    next
      assume "setdefault_append g (JStr a) entry = g @ [(JStr a, [entry])]"
      then have "setdefault_append (kv # g) (JStr a) entry = (kv # g) @ [(JStr a, [entry])]"
        using False by (simp add: kv)
      then show ?thesis by blast
    qed
  qed
qed

lemma render_groups_append:
  "render_groups E tz_obj (G1 @ G2) =
     (case render_groups E tz_obj G1 of
        Inl x \<Rightarrow> Inl x
      | Inr A \<Rightarrow>
          (case render_groups E tz_obj G2 of
             Inl x \<Rightarrow> Inl x
           | Inr B \<Rightarrow> Inr (A @ B)))"
proof (induction G1)
  case Nil
  then show ?case by (simp split: sum.splits)
next
  case (Cons kv G1)
  obtain k es where kv: "kv = (k, es)" by (cases kv)
  show ?case by (simp add: kv Cons.IH split: sum.splits)
qed

lemma render_groups_split:
  assumes "render_groups E tz_obj (G1 @ (k, es) # G2) = Inr parts"
  shows "\<exists>A prior B. render_groups E tz_obj G1 = Inr A
     \<and> render_entries E tz_obj (Suc 0) es = Inr prior
     \<and> render_groups E tz_obj G2 = Inr B"
  using assms by (auto simp: render_groups_append split: sum.splits)

lemma render_groups_extended:
  assumes "render_groups E tz_obj G1 = Inr A"
    and "render_entries E tz_obj (Suc 0) es = Inr prior"
    and "render_groups E tz_obj G2 = Inr B"
    and "render_entry E tz_obj (Suc (length es)) entry = Inr ls"
  shows "render_groups E tz_obj (G1 @ (k, es @ [entry]) # G2)
     = Inr (A @ (author_line k (Suc (length es)) # prior @ ls) @ [''''] @ B)"
  using assms by (simp add: render_groups_append render_entries_append)

lemma join_append:
  "xs \<noteq> [] \<Longrightarrow> ys \<noteq> [] \<Longrightarrow> join sep (xs @ ys) = join sep xs @ sep @ join sep ys"
proof (induction sep xs rule: join.induct)
  case (1 sep)
  then show ?case by simp
next
  case (2 sep x)
  then show ?case by (cases ys) simp_all
next
  case (3 sep x y ys')
  then show ?case by simp
qed

lemma join_middle:
  assumes "M \<noteq> []"
  shows "\<exists>pre post. join sep (A @ M @ B) = pre @ join sep M @ post"
proof -
  have right: "\<exists>post. join sep (M @ B) = join sep M @ post"
  proof (cases B)
    case Nil
    then show ?thesis by simp
  next
    case (Cons b B')
    then have "join sep (M @ B) = join sep M @ sep @ join sep B"
      using assms by (simp add: join_append)
    then show ?thesis by blast
  qed
  then obtain post where post: "join sep (M @ B) = join sep M @ post" by blast
  show ?thesis
  proof (cases A)
    case Nil
    then have "join sep (A @ M @ B) = [] @ join sep M @ post" using post by simp
    then show ?thesis by blast
  next
    case (Cons a A')
    then have "A \<noteq> []" and "M @ B \<noteq> []" using assms by simp_all
    then have "join sep (A @ M @ B) = join sep A @ sep @ join sep (M @ B)"
      by (rule join_append)
    then have "join sep (A @ M @ B) = (join sep A @ sep) @ join sep M @ post"
      using post by simp
    then show ?thesis by blast
  qed
qed


lemma slices_of_text:
  "concat (map (text_slice t) [0..<length (send_paginated h t None)]) = t"
proof -
  have "text_slice t = (\<lambda>k. take max_chunk (drop (0 + k * max_chunk) t))"
    by (rule ext) (simp add: text_slice_def)
  then show ?thesis
    using send_loop_text_slices [of 0 t h None] by (simp only: send_paginated_def drop_0)
qed

text \<open>
  Where the saved text is listed. After \<open>!save T\<close> with \<open>T\<close> non-empty once trimmed, a
  \<open>!load\<close> without argument sends the pagination of a text in which the block of the
  sender's group (the line \<open>Author: <author> (<n> message(s))\<close>, then the lines of the
  group's earlier entries) ends with the line \<open>  <n>) <json of T>\<close> and its Timestamp
  line. This needs a sender's name that is not empty, a storage file the \<open>!save\<close> can
  read or recover from, entries stored before that group and render, and a new timestamp
  the renderer can show.
\<close>

lemma saved_text_is_listed:
  assumes "startswith (content m) ''!save''"
    and "strip (drop (length ''!save '') (content m)) = T"
    and "T \<noteq> []"
    and "author m \<noteq> []"
    and "startswith (content l) ''!load''"
    and "strip (drop (length ''!load'') (content l)) = []"
    and "group_loop [] (stored_list (data_file w)) = Inr g0"
    and "render_groups E None g0 = Inr parts0"
    and "converts E None (JStr (timestamp m))"
    and "recovers (data_file w)"
  shows "\<exists>A es prior h B block t.
       render_entries E None 1 es = Inr prior
     \<and> block = author_line (JStr (author m)) (Suc (length es))
               # prior
               @ [''  '' @ str_nat (Suc (length es)) @ '') '' @ json_dumps (JStr T),
                  timestamp_line h]
     \<and> t = join [newline] (A @ block @ [''''] @ B)
     \<and> (\<exists>pre post. t = pre @ join [newline] block @ post)
     \<and> friendly_text E None (data_file (fst (on_message E m w))) = Inr t
     \<and> sent (fst (on_message E l (fst (on_message E m w))))
         = sent w @ [saved_reply] @ send_paginated ''Saved messages:'' t None
     \<and> snd (on_message E l (fst (on_message E m w))) = None
     \<and> concat (map (text_slice t) [0..<length (send_paginated ''Saved messages:'' t None)]) = t"
proof -
  let ?a = "JStr (author m)"
  let ?e = "stored m"
  let ?w1 = "fst (on_message E m w)"
  have sv: "is_save m" and T: "payload_of m = T"
    using assms(1-3) by (simp_all add: is_save_def payload_of_def)
  have w1: "data_file ?w1 = Parsed (JArr (stored_list (data_file w) @ [?e]))"
    and s1: "sent ?w1 = sent w @ [saved_reply]"
    by (simp_all add: on_message_is_save [OF sv assms(10)])
  have g1: "group_loop [] (stored_list (data_file w) @ [?e]) = Inr (setdefault_append g0 ?a ?e)"
    using assms(4,7) by (simp add: group_loop_append group_entry_stored)
  from assms(9) render_entry_converts [of E None ?e]
  have one: "\<exists>h. render_entry E None i ?e
      = Inr [payload_line i (JStr T), timestamp_line h]" for i
    by (simp add: entry_timestamp_stored entry_payload_stored T)
  have "\<exists>A es prior h B.
      render_entries E None (Suc 0) es = Inr prior
    \<and> render_groups E None (setdefault_append g0 ?a ?e)
        = Inr (A @ (author_line ?a (Suc (length es))
                    # prior @ [payload_line (Suc (length es)) (JStr T), timestamp_line h])
               @ [''''] @ B)"
    using setdefault_append_cases [of g0 "author m" ?e]
  proof
    assume "\<exists>G1 es G2. g0 = G1 @ (?a, es) # G2
        \<and> setdefault_append g0 ?a ?e = G1 @ (?a, es @ [?e]) # G2"
    then obtain G1 es G2 where g0: "g0 = G1 @ (?a, es) # G2"
      and r: "setdefault_append g0 ?a ?e = G1 @ (?a, es @ [?e]) # G2"
      by blast
    from assms(8) render_groups_split [of E None G1 ?a es G2 parts0]
    obtain A prior B where p: "render_groups E None G1 = Inr A"
        "render_entries E None (Suc 0) es = Inr prior" "render_groups E None G2 = Inr B"
      by (auto simp: g0)
    from one [of "Suc (length es)"] obtain h where
      h: "render_entry E None (Suc (length es)) ?e
          = Inr [payload_line (Suc (length es)) (JStr T), timestamp_line h]"
      by blast
    from render_groups_extended [OF p h, of ?a] r
    have "render_groups E None (setdefault_append g0 ?a ?e)
        = Inr (A @ (author_line ?a (Suc (length es))
                    # prior @ [payload_line (Suc (length es)) (JStr T), timestamp_line h])
               @ [''''] @ B)"
      by simp
    with p(2) show ?thesis by blast
  next
    assume r: "setdefault_append g0 ?a ?e = g0 @ [(?a, [?e])]"
    from one [of "Suc 0"] obtain h where
      h: "render_entry E None (Suc (length ([]::json list))) ?e
          = Inr [payload_line (Suc (length ([]::json list))) (JStr T), timestamp_line h]"
      by auto
    have e0: "render_entries E None (Suc 0) [] = Inr []" by simp
    have b0: "render_groups E None [] = Inr []" by simp
    from render_groups_extended [OF assms(8) e0 b0 h, of ?a] r
    have "render_groups E None (setdefault_append g0 ?a ?e)
        = Inr (parts0 @ (author_line ?a (Suc (length ([]::json list)))
                    # [] @ [payload_line (Suc (length ([]::json list))) (JStr T), timestamp_line h])
               @ [''''] @ [])"
      by simp
    with e0 show ?thesis by blast
  qed
  then obtain A es prior h B where
      prior: "render_entries E None (Suc 0) es = Inr prior"
    and parts: "render_groups E None (setdefault_append g0 ?a ?e)
        = Inr (A @ (author_line ?a (Suc (length es))
                    # prior @ [payload_line (Suc (length es)) (JStr T), timestamp_line h])
               @ [''''] @ B)"
    by blast
  define block where "block = author_line ?a (Suc (length es))
      # prior @ [''  '' @ str_nat (Suc (length es)) @ '') '' @ json_dumps (JStr T), timestamp_line h]"
  define t where "t = join [newline] (A @ block @ [''''] @ B)"
  have ft: "friendly_text E None (data_file ?w1) = Inr t"
    by (simp add: w1 friendly_text_def json_load_def normalize_def g1 parts t_def block_def
        payload_line_def)
  from on_message_load_text [OF assms(5,6) ft]
  have ld: "sent (fst (on_message E l ?w1)) = sent w @ [saved_reply] @ send_paginated ''Saved messages:'' t None"
      "snd (on_message E l ?w1) = None"
    by (simp_all add: s1)
  have "block \<noteq> []" by (simp add: block_def)
  from join_middle [OF this, of "[newline]" A "[''''] @ B"]
  have mid: "\<exists>pre post. t = pre @ join [newline] block @ post"
    by (simp add: t_def)
  have p1: "render_entries E None 1 es = Inr prior" using prior by simp
  from p1 block_def t_def mid ft ld slices_of_text [of t "''Saved messages:''"]
  show ?thesis by blast
qed


lemma saved_text_is_listed_sample:
  "startswith (content hello_save) ''!save''
   \<and> strip (drop (length ''!save '') (content hello_save)) = ''hello''
   \<and> ''hello'' \<noteq> []
   \<and> author hello_save \<noteq> []
   \<and> startswith (content plain_load) ''!load''
   \<and> strip (drop (length ''!load'') (content plain_load)) = []
   \<and> group_loop [] (stored_list (data_file two_entry_world))
       = Inr [(JStr ''bob'', [stored bob_save]), (JStr ''alice'', [stored hello_save])]
   \<and> render_groups sample_env None
         [(JStr ''bob'', [stored bob_save]), (JStr ''alice'', [stored hello_save])]
       = Inr [''Author: bob (1 message(s))'',
              ''  1) '' @ [CHR 0x22] @ ''buy milk'' @ [CHR 0x22],
              ''       Timestamp: garbage'',
              [],
              ''Author: alice (1 message(s))'',
              ''  1) '' @ [CHR 0x22] @ ''hello'' @ [CHR 0x22],
              ''       Timestamp: 2024-01-02 03:04:05 UTC'',
              []]
   \<and> converts sample_env None (JStr (timestamp hello_save))
   \<and> (\<exists>A es prior h B block t.
         render_entries sample_env None 1 es = Inr prior
       \<and> block = author_line (JStr (author hello_save)) (Suc (length es))
                 # prior
                 @ [''  '' @ str_nat (Suc (length es)) @ '') '' @ json_dumps (JStr ''hello''),
                    timestamp_line h]
       \<and> t = join [newline] (A @ block @ [''''] @ B)
       \<and> sent (fst (on_message sample_env plain_load
                  (fst (on_message sample_env hello_save two_entry_world))))
           = sent two_entry_world @ [saved_reply] @ send_paginated ''Saved messages:'' t None)
   \<and> sent (fst (on_message sample_env plain_load
              (fst (on_message sample_env hello_save two_entry_world))))
       = [saved_reply,
          ''Saved messages:'' @ [newline]
          @ ''Author: bob (1 message(s))'' @ [newline]
          @ ''  1) '' @ [CHR 0x22] @ ''buy milk'' @ [CHR 0x22] @ [newline]
          @ ''       Timestamp: garbage'' @ [newline]
          @ [newline]
          @ ''Author: alice (2 message(s))'' @ [newline]
          @ ''  1) '' @ [CHR 0x22] @ ''hello'' @ [CHR 0x22] @ [newline]
          @ ''       Timestamp: 2024-01-02 03:04:05 UTC'' @ [newline]
          @ ''  2) '' @ [CHR 0x22] @ ''hello'' @ [CHR 0x22] @ [newline]
          @ ''       Timestamp: 2024-01-02 03:04:05 UTC'' @ [newline]]"
proof -
  have a1: "startswith (content hello_save) ''!save''" by code_simp
  have a2: "strip (drop (length ''!save '') (content hello_save)) = ''hello''" by code_simp
  have a3: "''hello'' \<noteq> []" by simp
  have a4: "author hello_save \<noteq> []" by code_simp
  have a5: "startswith (content plain_load) ''!load''" by code_simp
  have a6: "strip (drop (length ''!load'') (content plain_load)) = []" by code_simp
  have a7: "group_loop [] (stored_list (data_file two_entry_world))
       = Inr [(JStr ''bob'', [stored bob_save]), (JStr ''alice'', [stored hello_save])]"
    by code_simp
  have a8: "render_groups sample_env None
         [(JStr ''bob'', [stored bob_save]), (JStr ''alice'', [stored hello_save])]
       = Inr [''Author: bob (1 message(s))'',
              ''  1) '' @ [CHR 0x22] @ ''buy milk'' @ [CHR 0x22],
              ''       Timestamp: garbage'',
              [],
              ''Author: alice (1 message(s))'',
              ''  1) '' @ [CHR 0x22] @ ''hello'' @ [CHR 0x22],
              ''       Timestamp: 2024-01-02 03:04:05 UTC'',
              []]"
    by code_simp
  have a9: "converts sample_env None (JStr (timestamp hello_save))" by code_simp
  have a10: "recovers (data_file two_entry_world)" by (simp add: two_entry_world_def)
  from saved_text_is_listed [OF a1 a2 a3 a4 a5 a6 a7 a8 a9 a10]
  have ex: "\<exists>A es prior h B block t.
         render_entries sample_env None 1 es = Inr prior
       \<and> block = author_line (JStr (author hello_save)) (Suc (length es))
                 # prior
                 @ [''  '' @ str_nat (Suc (length es)) @ '') '' @ json_dumps (JStr ''hello''),
                    timestamp_line h]
       \<and> t = join [newline] (A @ block @ [''''] @ B)
       \<and> sent (fst (on_message sample_env plain_load
                  (fst (on_message sample_env hello_save two_entry_world))))
           = sent two_entry_world @ [saved_reply] @ send_paginated ''Saved messages:'' t None"
    by blast
  have ev: "sent (fst (on_message sample_env plain_load
              (fst (on_message sample_env hello_save two_entry_world))))
       = [saved_reply,
          ''Saved messages:'' @ [newline]
          @ ''Author: bob (1 message(s))'' @ [newline]
          @ ''  1) '' @ [CHR 0x22] @ ''buy milk'' @ [CHR 0x22] @ [newline]
          @ ''       Timestamp: garbage'' @ [newline]
          @ [newline]
          @ ''Author: alice (2 message(s))'' @ [newline]
          @ ''  1) '' @ [CHR 0x22] @ ''hello'' @ [CHR 0x22] @ [newline]
          @ ''       Timestamp: 2024-01-02 03:04:05 UTC'' @ [newline]
          @ ''  2) '' @ [CHR 0x22] @ ''hello'' @ [CHR 0x22] @ [newline]
          @ ''       Timestamp: 2024-01-02 03:04:05 UTC'' @ [newline]]"
    by code_simp
  from a1 a2 a3 a4 a5 a6 a7 a8 a9 ex ev show ?thesis by (intro conjI)
qed

text \<open>
  Claim C2. After \<open>!save T\<close>, a \<open>!load\<close> should list the JSON form of \<open>T\<close> in the sender's
  group. The listing stops at the first stored entry the handler does not cope with.
  With a stored entry whose \<open>timestamp\<close> is the number 5, the \<open>!save\<close> appends the new entry,
  but the \<open>!load\<close> calls \<open>fromisoformat(5)\<close>, which raises \<open>TypeError\<close>; line 130 catches only
  \<open>ValueError\<close>, so the handler raises and sends nothing: \<open>T\<close> is stored and not listed.
  With a storage file that is not valid UTF-8 the \<open>!save\<close> itself raises, and \<open>T\<close> is not
  even stored.
\<close>

theorem C2_unlisted_after_save:
  "is_save hello_save
   \<and> payload_of hello_save = ''hello''
   \<and> on_message sample_env hello_save numeric_ts_world
       = (\<lparr>data_file = Parsed (JArr [numeric_ts_entry, stored hello_save]),
           fs_ops = [OpenRead, OpenWrite], sent = [saved_reply]\<rparr>, None)
   \<and> on_message sample_env plain_load (fst (on_message sample_env hello_save numeric_ts_world))
       = (\<lparr>data_file = Parsed (JArr [numeric_ts_entry, stored hello_save]),
           fs_ops = [OpenRead, OpenWrite, OpenRead], sent = [saved_reply]\<rparr>, Some TypeError)
   \<and> on_message sample_env hello_save not_utf8_world
       = (\<lparr>data_file = NotUTF8, fs_ops = [OpenRead], sent = []\<rparr>, Some UnicodeDecodeError)
   \<and> on_message sample_env plain_load (fst (on_message sample_env hello_save not_utf8_world))
       = (\<lparr>data_file = NotUTF8, fs_ops = [OpenRead, OpenRead], sent = []\<rparr>,
          Some UnicodeDecodeError)"
  by code_simp

end
